theory Spec2Isabelle
  imports Main "HOL-Library.Word" "HOL-Library.Sublist" "HOL-Library.AList"
    "HOL-Library.Char_ord" "HOL-Library.List_Lexorder" "HOL-Library.Multiset"
begin

section \<open>The kickbox API client (kickbox.go)\<close>

text \<open>
  A shallow embedding of \<^verbatim>\<open>kickbox.go\<close>. Go strings and byte slices are
  \<open>string\<close> (a list of bytes); a nil slice and an empty slice are both \<open>[]\<close>, which is all
  the code can tell apart with \<open>len\<close>. A Go \<open>int\<close> is an \<open>int\<close> (no arithmetic is done
  on one), a \<open>float32\<close> is its 32-bit pattern. A pair \<open>(*T, error)\<close> is a pair of options,
  \<open>None\<close> standing for nil.
\<close>

subsection \<open>Errors\<close>

text \<open>
  Go compares errors by identity. The three package-level sentinels are constructors of
  their own, so that a fresh \<open>errors.New\<close> with the same text is a different error, as in
  Go. \<open>errors_New\<close> is also what \<open>fmt.Errorf\<close> returns for a format without \<open>%w\<close>.
  The remaining constructors are the errors of the standard library calls the code makes.
\<close>

datatype error =
    ErrEmptyResponse
  | ErrResponseHadEmptyStructure
  | ErrUnknownErrorVerifyingEmail
  | errors_New string
  | url_Error string
  | http_Error string
  | json_SyntaxError string
  | json_UnmarshalTypeError string

fun error_Error :: "error \<Rightarrow> string" where
  "error_Error ErrEmptyResponse = ''Empty body response received from service''"
| "error_Error ErrResponseHadEmptyStructure = ''Could not unmarshall correctly the response''"
| "error_Error ErrUnknownErrorVerifyingEmail = ''Unknown error verifying email''"
| "error_Error (errors_New s) = s"
| "error_Error (url_Error s) = s"
| "error_Error (http_Error s) = s"
| "error_Error (json_SyntaxError s) = s"
| "error_Error (json_UnmarshalTypeError s) = s"

subsection \<open>Endpoint registry\<close>

datatype ServiceType = Verify | VerifyMultiple | CheckJobStatus | CreditBalance | DisposableEmailCheck

record Endpoint =
  Method :: string
  Path :: string

fun Endpoints :: "ServiceType \<Rightarrow> Endpoint" where
  "Endpoints Verify = \<lparr>Method = ''GET'', Path = ''/{API_VERSION}/verify''\<rparr>"
| "Endpoints VerifyMultiple = \<lparr>Method = ''PUT'', Path = ''/{API_VERSION}/verify-batch''\<rparr>"
| "Endpoints CheckJobStatus = \<lparr>Method = ''GET'', Path = ''/{API_VERSION}/verify-batch/{JOB_ID}''\<rparr>"
| "Endpoints CreditBalance = \<lparr>Method = ''GET'', Path = ''/{API_VERSION}/balance''\<rparr>"
| "Endpoints DisposableEmailCheck = \<lparr>Method = ''GET'', Path = ''/{API_VERSION}/disposable/{EMAIL_ADDRESS}''\<rparr>"

subsection \<open>Result structures and their methods\<close>

text \<open>
  The fields keep their Go names behind a prefix for the struct (\<open>v_\<close>, \<open>vm_\<close>, \<open>cj_\<close>,
  \<open>cb_\<close>, \<open>d_\<close>), since several structs share the names \<open>Success\<close>, \<open>Message\<close>, \<open>ID\<close> and
  \<open>Disposable\<close>.
\<close>

type_synonym float32 = "32 word"

record VerifyResponse =
  v_Result :: string
  v_Reason :: string
  v_Role :: bool
  v_Free :: bool
  v_Disposable :: bool
  v_AcceptAll :: bool
  v_DidYouMean :: string
  v_Sendex :: float32
  v_Email :: string
  v_User :: string
  v_Domain :: string
  v_Success :: bool
  v_Message :: string

definition VerifyResponse_IsValid :: "VerifyResponse \<Rightarrow> bool" where
  "VerifyResponse_IsValid v = (v_Result v = ''deliverable'')"

definition VerifyResponse_Error :: "VerifyResponse \<Rightarrow> error option" where
  "VerifyResponse_Error v =
     (if \<not> v_Success v then
        (if v_Message v \<noteq> [] then Some (errors_New (v_Message v))
         else Some ErrUnknownErrorVerifyingEmail)
      else None)"

record VerifyMultipleResponse =
  vm_ID :: int
  vm_Success :: bool
  vm_Message :: string

definition VerifyMultipleResponse_Error :: "VerifyMultipleResponse \<Rightarrow> error option" where
  "VerifyMultipleResponse_Error v =
     (if \<not> vm_Success v then
        (if vm_Message v \<noteq> [] then Some (errors_New (vm_Message v))
         else Some ErrUnknownErrorVerifyingEmail)
      else None)"

record Progress =
  p_Deliverable :: int
  p_Undeliverable :: int
  p_Risky :: int
  p_Unknown :: int
  p_Total :: int
  p_Unprocessed :: int

record Stats =
  s_Deliverable :: int
  s_Undeliverable :: int
  s_Risky :: int
  s_Unknown :: int
  s_Sendex :: float32
  s_Addresses :: int

record CheckJobStatusResponse =
  cj_ID :: int
  cj_Name :: string
  cj_DownloadURL :: string
  cj_CreatedAt :: string
  cj_Status :: string
  cj_Progress :: Progress
  cj_Stats :: Stats
  cj_Success :: bool
  cj_Message :: string
  cj_Error :: string
  cj_Duration :: int

definition IsStarting :: "CheckJobStatusResponse \<Rightarrow> bool" where
  "IsStarting c = (cj_Status c = ''starting'')"

definition IsProcessing :: "CheckJobStatusResponse \<Rightarrow> bool" where
  "IsProcessing c = (cj_Status c = ''processing'')"

definition IsCompleted :: "CheckJobStatusResponse \<Rightarrow> bool" where
  "IsCompleted c = (cj_Status c = ''completed'')"

record CreditBalanceResponse =
  cb_Balance :: int
  cb_Success :: bool
  cb_Message :: string

definition CreditBalanceResponse_Error :: "CreditBalanceResponse \<Rightarrow> error option" where
  "CreditBalanceResponse_Error v =
     (if \<not> cb_Success v then
        (if cb_Message v \<noteq> [] then Some (errors_New (cb_Message v))
         else Some ErrUnknownErrorVerifyingEmail)
      else None)"

record DisposableEmailCheckResponse =
  d_Disposable :: bool

subsection \<open>Standard library functions the code calls\<close>

text \<open>
  \<open>strings.Replace(s, old, new, -1)\<close>: every non-overlapping occurrence of \<open>old\<close>, found
  from the left, is replaced by \<open>new\<close>. The code only calls it with a non-empty \<open>old\<close>
  (\<open>"{" + search + "}"\<close>); for an empty \<open>old\<close> Go inserts \<open>new\<close> before every rune and
  at the end, which the first branch writes for one-byte runes.
\<close>

function strings_Replace :: "string \<Rightarrow> string \<Rightarrow> string \<Rightarrow> string" where
  "strings_Replace s old new =
     (if old = [] then new @ concat (map (\<lambda>c. c # new) s)
      else if s = [] then []
      else if prefix old s then new @ strings_Replace (drop (length old) s) old new
      else hd s # strings_Replace (tl s) old new)"
  by pat_completeness auto
termination
  by (relation "measure (\<lambda>(s, old, new). length s)") auto

declare strings_Replace.simps [simp del]

text \<open>\<open>strconv.Itoa\<close>: the decimal digits, after a minus sign for a negative number.\<close>

definition digit :: "nat \<Rightarrow> char" where
  "digit d = ''0123456789'' ! d"

function formatBits :: "nat \<Rightarrow> string" where
  "formatBits n = (if n < 10 then [digit n] else formatBits (n div 10) @ [digit (n mod 10)])"
  by pat_completeness auto
termination
  by (relation "measure id") auto

declare formatBits.simps [simp del]

definition strconv_Itoa :: "int \<Rightarrow> string" where
  "strconv_Itoa i = (if i < 0 then CHR ''-'' # formatBits (nat (- i)) else formatBits (nat i))"

text \<open>
  \<open>url.QueryEscape\<close>: letters, digits and \<open>- _ . ~\<close> stay, a space becomes \<open>+\<close>, every other
  byte becomes \<open>%XX\<close> in upper-case hexadecimal.
\<close>

definition isAlnum :: "char \<Rightarrow> bool" where
  "isAlnum c = ((CHR ''a'' \<le> c \<and> c \<le> CHR ''z'') \<or> (CHR ''A'' \<le> c \<and> c \<le> CHR ''Z'')
     \<or> (CHR ''0'' \<le> c \<and> c \<le> CHR ''9''))"

definition shouldEscape :: "char \<Rightarrow> bool" where
  "shouldEscape c = (\<not> (isAlnum c \<or> c \<in> set ''-_.~''))"

definition upperhex :: "nat \<Rightarrow> char" where
  "upperhex n = ''0123456789ABCDEF'' ! n"

definition escape_byte :: "char \<Rightarrow> string" where
  "escape_byte c =
     (if shouldEscape c then
        (if c = CHR '' '' then ''+''
         else [CHR ''%'', upperhex (of_char c div 16), upperhex (of_char c mod 16)])
      else [c])"

definition url_QueryEscape :: "string \<Rightarrow> string" where
  "url_QueryEscape s = concat (map escape_byte s)"

fun strings_Join :: "string list \<Rightarrow> string \<Rightarrow> string" where
  "strings_Join [] sep = []"
| "strings_Join [x] sep = x"
| "strings_Join (x # y # ys) sep = x @ sep @ strings_Join (y # ys) sep"

text \<open>
  \<open>url.Values\<close> is a \<open>map[string][]string\<close>: an association list read through
  \<open>map_of\<close>. \<open>Set\<close> replaces the values of a key by the one value given. \<open>Encode\<close> walks
  the keys in sorted order and writes \<open>key=value\<close> for every value, both escaped, the
  pieces joined by \<open>&\<close>.
\<close>

type_synonym Values = "(string \<times> string list) list"

definition Values_Set :: "Values \<Rightarrow> string \<Rightarrow> string \<Rightarrow> Values" where
  "Values_Set v key val = AList.update key [val] v"

definition Values_Get :: "Values \<Rightarrow> string \<Rightarrow> string list" where
  "Values_Get v key = (case map_of v key of None \<Rightarrow> [] | Some vs \<Rightarrow> vs)"

definition Values_keys :: "Values \<Rightarrow> string list" where
  "Values_keys v = sort (remdups (map fst v))"

definition Values_pairs :: "Values \<Rightarrow> string list" where
  "Values_pairs v =
     concat (map (\<lambda>k. map (\<lambda>x. url_QueryEscape k @ ''='' @ url_QueryEscape x) (Values_Get v k))
       (Values_keys v))"

definition Values_Encode :: "Values \<Rightarrow> string" where
  "Values_Encode v = strings_Join (Values_pairs v) ''&''"

text \<open>
  \<open>http.Header\<close> is a \<open>map[string][]string\<close> under canonical keys. \<open>Add\<close> appends
  a value under the canonical form of the key: a key of token bytes only has the first
  letter and every letter after a hyphen in upper case and the others in lower case, any
  other key is left as it is.
\<close>

type_synonym Header = "string \<rightharpoonup> string list"

definition validHeaderFieldByte :: "char \<Rightarrow> bool" where
  "validHeaderFieldByte c =
     (isAlnum c \<or> c \<in> set ''!#$%&*+-.^_|~'' \<or> c = char_of (39::nat) \<or> c = char_of (96::nat))"

definition toUpper :: "char \<Rightarrow> char" where
  "toUpper c = (if CHR ''a'' \<le> c \<and> c \<le> CHR ''z'' then char_of (of_char c - (32::nat)) else c)"

definition toLower :: "char \<Rightarrow> char" where
  "toLower c = (if CHR ''A'' \<le> c \<and> c \<le> CHR ''Z'' then char_of (of_char c + (32::nat)) else c)"

fun recase :: "bool \<Rightarrow> string \<Rightarrow> string" where
  "recase upper [] = []"
| "recase upper (c # cs) = (if upper then toUpper c else toLower c) # recase (c = CHR ''-'') cs"

definition CanonicalMIMEHeaderKey :: "string \<Rightarrow> string" where
  "CanonicalMIMEHeaderKey s = (if list_all validHeaderFieldByte s then recase True s else s)"

definition Header_Add :: "Header \<Rightarrow> string \<Rightarrow> string \<Rightarrow> Header" where
  "Header_Add h key val =
     (let k = CanonicalMIMEHeaderKey key
      in h(k \<mapsto> (case h k of None \<Rightarrow> [] | Some vs \<Rightarrow> vs) @ [val]))"

text \<open>
  The order in which a \<open>range\<close> statement visits the entries of a map is chosen by the Go
  runtime. \<open>go_range n m\<close> is the \<open>n\<close>-th arrangement of the entries \<open>m\<close>; every
  arrangement is \<open>go_range n m\<close> for some \<open>n\<close>.
\<close>

definition insert_at :: "nat \<Rightarrow> 'a \<Rightarrow> 'a list \<Rightarrow> 'a list" where
  "insert_at i x xs = take i xs @ x # drop i xs"

fun go_range :: "nat \<Rightarrow> 'a list \<Rightarrow> 'a list" where
  "go_range n [] = []"
| "go_range n (x # xs) =
     insert_at (n mod Suc (length xs)) x (go_range (n div Suc (length xs)) xs)"

subsection \<open>Requests, responses, the client\<close>

text \<open>
  A \<open>url.URL\<close> with the fields the code reads or writes (\<open>Path\<close>, \<open>RawQuery\<close>) and those
  that identify the server.
\<close>

record URL =
  u_Scheme :: string
  u_Host :: string
  u_Path :: string
  u_RawQuery :: string
  u_Fragment :: string

text \<open>
  The text \<open>u.String()\<close> of a URL, which \<open>buildURL\<close> returns and \<open>http.NewRequest\<close>
  parses again. It is kept in two parts: the query string, and the text without its query
  (scheme, authority or opaque part, escaped path, fragment). \<open>String()\<close> writes
  \<open>RawQuery\<close>, which is never empty here, as it is after a \<open>?\<close>, and writes no \<open>?\<close>
  and no \<open>#\<close> before it; \<open>Values.Encode\<close> writes neither byte; and \<open>url.Parse\<close>
  cuts the fragment off at the first \<open>#\<close> and the query at the first \<open>?\<close> before it
  reads the rest. So the parse gives back the query string written, and reads everything
  else from the rest of the text. What that rest is, and what its parse yields (the path
  of the request among it), is left to the runtime below: the path parsed need not be the
  path written, as for an opaque base URL or a relative one with a colon in its first
  segment.
\<close>

record URLText =
  text_rest :: string
  text_query :: string

record Request =
  r_Method :: string
  r_URL :: URL
  r_Header :: Header
  r_Body :: "string option"

text \<open>
  What \<open>httpClient.Do\<close> hands back when it does not fail: the status code, and the body
  as what \<open>ioutil.ReadAll\<close> makes of it (a read error, or all the bytes).
\<close>

record Response =
  StatusCode :: int
  Body :: "error + string"

record Client =
  baseURL :: string
  apiKey :: string
  httpClient :: "Request \<Rightarrow> error + Response"

text \<open>
  The parts of the Go standard library and runtime that the code calls and that are kept
  abstract: parsing a URL and a query string, writing a URL as text (everything but its
  query), the check of the method in \<open>http.NewRequest\<close>, decoding a non-empty JSON text
  into each result structure, and the number of the arrangement in which the \<open>range\<close>
  over the segments visits them.
\<close>

record runtime =
  url_Parse :: "string \<Rightarrow> error + URL"
  url_String :: "URL \<Rightarrow> string"
  url_ParseQuery :: "string \<Rightarrow> Values"
  http_NewRequest_error :: "string \<Rightarrow> error option"
  decode_VerifyResponse :: "string \<Rightarrow> error + VerifyResponse"
  decode_VerifyMultipleResponse :: "string \<Rightarrow> error + VerifyMultipleResponse"
  decode_CheckJobStatusResponse :: "string \<Rightarrow> error + CheckJobStatusResponse"
  decode_CreditBalanceResponse :: "string \<Rightarrow> error + CreditBalanceResponse"
  decode_DisposableEmailCheckResponse :: "string \<Rightarrow> error + DisposableEmailCheckResponse"
  range_seed :: nat

text \<open>
  \<open>json.Unmarshal\<close> checks that its input is valid JSON before it decodes anything; on
  an input of no bytes (nil included) that check fails with the syntax error
  "unexpected end of JSON input". Any other input goes to the decoder of the target type.
\<close>

definition json_Unmarshal :: "(string \<Rightarrow> error + 'r) \<Rightarrow> string \<Rightarrow> error + 'r" where
  "json_Unmarshal decode data =
     (if data = [] then Inl (json_SyntaxError ''unexpected end of JSON input'') else decode data)"

text \<open>
  \<open>http.NewRequest\<close> checks the method, parses the text of the URL, and returns a
  request without headers. The URL of the request is the parse of the text: its query
  string is the one in the text, everything else is the parse of the rest.
\<close>

definition http_NewRequest :: "runtime \<Rightarrow> string \<Rightarrow> URLText \<Rightarrow> string option \<Rightarrow> error + Request" where
  "http_NewRequest rt method url body =
     (case http_NewRequest_error rt method of
        Some err \<Rightarrow> Inl err
      | None \<Rightarrow>
          (case url_Parse rt (text_rest url) of
             Inl err \<Rightarrow> Inl err
           | Inr u \<Rightarrow>
               Inr \<lparr>r_Method = (if method = [] then ''GET'' else method),
                    r_URL = u\<lparr>u_RawQuery := text_query url\<rparr>,
                    r_Header = Map.empty, r_Body = body\<rparr>))"

subsection \<open>Building and sending a request\<close>

text \<open>
  The \<open>range\<close> over \<open>params\<close> calls \<open>Set\<close> once per key of a map, and calls of \<open>Set\<close> on
  different keys commute, so the model takes the entries in the order of the list; likewise
  for the \<open>range\<close> over the headers of VerifyMultiple and \<open>Header.Add\<close> (lemmas
  \<open>buildURL_any_order\<close> and \<open>add_headers_any_order\<close>).
\<close>

definition URL_String :: "runtime \<Rightarrow> URL \<Rightarrow> URLText" where
  "URL_String rt u = \<lparr>text_rest = url_String rt u, text_query = u_RawQuery u\<rparr>"

definition buildURL :: "runtime \<Rightarrow> Client \<Rightarrow> string \<Rightarrow> (string \<times> string) list \<Rightarrow> error + URLText" where
  "buildURL rt c path params =
     (case url_Parse rt (baseURL c) of
        Inl err \<Rightarrow> Inl err
      | Inr u \<Rightarrow>
          (let u1 = u\<lparr>u_Path := u_Path u @ path\<rparr>;
               queryString = fold (\<lambda>(k, v) q. Values_Set q k v) params (url_ParseQuery rt (u_RawQuery u1));
               u2 = u1\<lparr>u_RawQuery := Values_Encode queryString\<rparr>
           in Inr (URL_String rt u2)))"

definition substitute :: "(string \<times> string) list \<Rightarrow> string \<Rightarrow> string" where
  "substitute segments path =
     fold (\<lambda>(search, replace) p. strings_Replace p (''{'' @ search @ ''}'') replace) segments path"

definition buildRequest ::
  "runtime \<Rightarrow> Client \<Rightarrow> string \<Rightarrow> string \<Rightarrow> (string \<times> string) list \<Rightarrow> (string \<times> string) list
     \<Rightarrow> string option \<Rightarrow> error + Request" where
  "buildRequest rt c method path segments params body =
     (let params1 = AList.update ''apikey'' (apiKey c) params;
          path1 = substitute (go_range (range_seed rt) segments) path
      in case buildURL rt c path1 params1 of
           Inl err \<Rightarrow> Inl err
         | Inr URL \<Rightarrow> http_NewRequest rt method URL body)"

definition doRequest :: "Client \<Rightarrow> Request \<Rightarrow> int \<times> string \<times> error option" where
  "doRequest c request =
     (case httpClient c request of
        Inl err \<Rightarrow> (0, [], Some err)
      | Inr resp \<Rightarrow>
          (case Body resp of
             Inl err \<Rightarrow> (0, [], Some err)
           | Inr body \<Rightarrow> (StatusCode resp, body, None)))"

definition callService :: "Client \<Rightarrow> Request \<Rightarrow> string \<times> error option" where
  "callService c request =
     (case doRequest c request of
        (_, body, Some err) \<Rightarrow> ([], Some (errors_New (''Error doing request: '' @ error_Error err)))
      | (_, body, None) \<Rightarrow>
          (if length body = 0 then ([], Some ErrEmptyResponse) else (body, None)))"

subsection \<open>The five service calls\<close>

text \<open>
  Each service call keeps the error of \<open>callService\<close> in \<open>err\<close>, decodes the body
  whatever \<open>err\<close> is, returns the decoder's error if there is one, and otherwise the
  decoded response together with \<open>err\<close>.
\<close>

definition callVerifyService ::
  "runtime \<Rightarrow> Client \<Rightarrow> (string \<times> string) list \<Rightarrow> (string \<times> string) list
     \<Rightarrow> VerifyResponse option \<times> error option" where
  "callVerifyService rt c segments params =
     (let endpoint = Endpoints Verify
      in case buildRequest rt c (Method endpoint) (Path endpoint) segments params None of
           Inl err \<Rightarrow> (None, Some err)
         | Inr request \<Rightarrow>
             (case callService c request of
                (body, err) \<Rightarrow>
                  (case json_Unmarshal (decode_VerifyResponse rt) body of
                     Inl err1 \<Rightarrow> (None, Some err1)
                   | Inr response \<Rightarrow> (Some response, err))))"

definition add_headers :: "(string \<times> string) list \<Rightarrow> Request \<Rightarrow> Request" where
  "add_headers headers request =
     fold (\<lambda>(key, val) r. r\<lparr>r_Header := Header_Add (r_Header r) key val\<rparr>) headers request"

definition callVerifyMultipleService ::
  "runtime \<Rightarrow> Client \<Rightarrow> (string \<times> string) list \<Rightarrow> (string \<times> string) list \<Rightarrow> (string \<times> string) list
     \<Rightarrow> string \<Rightarrow> VerifyMultipleResponse option \<times> error option" where
  "callVerifyMultipleService rt c headers segments params data =
     (let endpoint = Endpoints VerifyMultiple
      in case buildRequest rt c (Method endpoint) (Path endpoint) segments params (Some data) of
           Inl err \<Rightarrow> (None, Some err)
         | Inr request0 \<Rightarrow>
             (let request = add_headers headers request0
              in case callService c request of
                   (body, err) \<Rightarrow>
                     (case json_Unmarshal (decode_VerifyMultipleResponse rt) body of
                        Inl err1 \<Rightarrow> (None, Some err1)
                      | Inr response \<Rightarrow> (Some response, err))))"

definition callCheckJobStatusService ::
  "runtime \<Rightarrow> Client \<Rightarrow> (string \<times> string) list \<Rightarrow> CheckJobStatusResponse option \<times> error option" where
  "callCheckJobStatusService rt c segments =
     (let endpoint = Endpoints CheckJobStatus
      in case buildRequest rt c (Method endpoint) (Path endpoint) segments [] None of
           Inl err \<Rightarrow> (None, Some err)
         | Inr request \<Rightarrow>
             (case callService c request of
                (body, err) \<Rightarrow>
                  (case json_Unmarshal (decode_CheckJobStatusResponse rt) body of
                     Inl err1 \<Rightarrow> (None, Some err1)
                   | Inr response \<Rightarrow> (Some response, err))))"

definition callCreditBalanceService ::
  "runtime \<Rightarrow> Client \<Rightarrow> (string \<times> string) list \<Rightarrow> CreditBalanceResponse option \<times> error option" where
  "callCreditBalanceService rt c segments =
     (let endpoint = Endpoints CreditBalance
      in case buildRequest rt c (Method endpoint) (Path endpoint) segments [] None of
           Inl err \<Rightarrow> (None, Some err)
         | Inr request \<Rightarrow>
             (case callService c request of
                (body, err) \<Rightarrow>
                  (case json_Unmarshal (decode_CreditBalanceResponse rt) body of
                     Inl err1 \<Rightarrow> (None, Some err1)
                   | Inr response \<Rightarrow> (Some response, err))))"

definition callDisposableService ::
  "runtime \<Rightarrow> Client \<Rightarrow> (string \<times> string) list \<Rightarrow> DisposableEmailCheckResponse option \<times> error option" where
  "callDisposableService rt c segments =
     (let endpoint = Endpoints DisposableEmailCheck
      in case buildRequest rt c (Method endpoint) (Path endpoint) segments [] None of
           Inl err \<Rightarrow> (None, Some err)
         | Inr request \<Rightarrow>
             (case callService c request of
                (body, err) \<Rightarrow>
                  (case json_Unmarshal (decode_DisposableEmailCheckResponse rt) body of
                     Inl err1 \<Rightarrow> (None, Some err1)
                   | Inr response \<Rightarrow> (Some response, err))))"

subsection \<open>The public operations\<close>

definition Client_Verify :: "runtime \<Rightarrow> Client \<Rightarrow> string \<Rightarrow> VerifyResponse option \<times> error option" where
  "Client_Verify rt c email =
     (let segments = [(''API_VERSION'', ''v2'')];
          params = [(''email'', email)]
      in callVerifyService rt c segments params)"

definition Client_VerifyMultiple ::
  "runtime \<Rightarrow> Client \<Rightarrow> string \<Rightarrow> string \<Rightarrow> string \<Rightarrow> VerifyMultipleResponse option \<times> error option" where
  "Client_VerifyMultiple rt c urlCallback filename data =
     (let segments = [(''API_VERSION'', ''v2'')];
          params = [];
          headers0 = [];
          headers1 = (if urlCallback \<noteq> [] then AList.update ''X-Kickbox-Callback'' urlCallback headers0
                      else headers0);
          headers2 = (if filename \<noteq> [] then AList.update ''X-Kickbox-Filename'' filename headers1
                      else headers1)
      in callVerifyMultipleService rt c headers2 segments params data)"

definition Client_CheckJobStatus :: "runtime \<Rightarrow> Client \<Rightarrow> int \<Rightarrow> CheckJobStatusResponse option \<times> error option" where
  "Client_CheckJobStatus rt c jobID =
     (let segments = [(''API_VERSION'', ''v2''), (''JOB_ID'', strconv_Itoa jobID)]
      in callCheckJobStatusService rt c segments)"

definition Client_CreditBalance :: "runtime \<Rightarrow> Client \<Rightarrow> CreditBalanceResponse option \<times> error option" where
  "Client_CreditBalance rt c =
     (let segments = [(''API_VERSION'', ''v2'')]
      in callCreditBalanceService rt c segments)"

definition Client_Disposable :: "runtime \<Rightarrow> Client \<Rightarrow> string \<Rightarrow> DisposableEmailCheckResponse option \<times> error option" where
  "Client_Disposable rt c email =
     (let segments = [(''API_VERSION'', ''v1''), (''EMAIL_ADDRESS'', email)]
      in callDisposableService rt c segments)"

subsection \<open>Views of the operations used in the statements\<close>

text \<open>
  The common tail of the five service calls, from the built request (or the error of
  building it) to the returned pair.
\<close>

definition respond :: "(string \<Rightarrow> error + 'r) \<Rightarrow> Client \<Rightarrow> error + Request \<Rightarrow> 'r option \<times> error option" where
  "respond decode c built =
     (case built of
        Inl err \<Rightarrow> (None, Some err)
      | Inr request \<Rightarrow>
          (case callService c request of
             (body, err) \<Rightarrow>
               (case json_Unmarshal decode body of
                  Inl err1 \<Rightarrow> (None, Some err1)
                | Inr response \<Rightarrow> (Some response, err))))"

text \<open>The request each operation hands to \<open>callService\<close>, or the error of building it.\<close>

definition Verify_request :: "runtime \<Rightarrow> Client \<Rightarrow> string \<Rightarrow> error + Request" where
  "Verify_request rt c email =
     buildRequest rt c (Method (Endpoints Verify)) (Path (Endpoints Verify))
       [(''API_VERSION'', ''v2'')] [(''email'', email)] None"

definition VerifyMultiple_headers :: "string \<Rightarrow> string \<Rightarrow> (string \<times> string) list" where
  "VerifyMultiple_headers urlCallback filename =
     (let headers1 = (if urlCallback \<noteq> [] then AList.update ''X-Kickbox-Callback'' urlCallback []
                      else [])
      in if filename \<noteq> [] then AList.update ''X-Kickbox-Filename'' filename headers1 else headers1)"

definition VerifyMultiple_request :: "runtime \<Rightarrow> Client \<Rightarrow> string \<Rightarrow> string \<Rightarrow> string \<Rightarrow> error + Request" where
  "VerifyMultiple_request rt c urlCallback filename data =
     (case buildRequest rt c (Method (Endpoints VerifyMultiple)) (Path (Endpoints VerifyMultiple))
             [(''API_VERSION'', ''v2'')] [] (Some data) of
        Inl err \<Rightarrow> Inl err
      | Inr request \<Rightarrow> Inr (add_headers (VerifyMultiple_headers urlCallback filename) request))"

definition CheckJobStatus_request :: "runtime \<Rightarrow> Client \<Rightarrow> int \<Rightarrow> error + Request" where
  "CheckJobStatus_request rt c jobID =
     buildRequest rt c (Method (Endpoints CheckJobStatus)) (Path (Endpoints CheckJobStatus))
       [(''API_VERSION'', ''v2''), (''JOB_ID'', strconv_Itoa jobID)] [] None"

definition CreditBalance_request :: "runtime \<Rightarrow> Client \<Rightarrow> error + Request" where
  "CreditBalance_request rt c =
     buildRequest rt c (Method (Endpoints CreditBalance)) (Path (Endpoints CreditBalance))
       [(''API_VERSION'', ''v2'')] [] None"

definition Disposable_request :: "runtime \<Rightarrow> Client \<Rightarrow> string \<Rightarrow> error + Request" where
  "Disposable_request rt c email =
     buildRequest rt c (Method (Endpoints DisposableEmailCheck)) (Path (Endpoints DisposableEmailCheck))
       [(''API_VERSION'', ''v1''), (''EMAIL_ADDRESS'', email)] [] None"

text \<open>
  The path \<open>buildRequest\<close> hands to \<open>buildURL\<close> for the template of a service and a map
  of segments: the realized path, which \<open>buildURL\<close> appends to the path of the base URL.
\<close>

definition realized_path :: "runtime \<Rightarrow> ServiceType \<Rightarrow> (string \<times> string) list \<Rightarrow> string" where
  "realized_path rt service segments =
     substitute (go_range (range_seed rt) segments) (Path (Endpoints service))"

text \<open>The same client behind a transport that reports every status code \<open>s\<close> as \<open>f s\<close>.\<close>

definition with_status :: "(int \<Rightarrow> int) \<Rightarrow> Client \<Rightarrow> Client" where
  "with_status f c =
     c\<lparr>httpClient := (\<lambda>request. case httpClient c request of
                          Inl err \<Rightarrow> Inl err
                        | Inr resp \<Rightarrow> Inr (resp\<lparr>StatusCode := f (StatusCode resp)\<rparr>))\<rparr>"

text \<open>
  The result of any operation, and its \<open>Error()\<close> method where the result type declares
  one: \<open>CheckJobStatusResponse\<close> and \<open>DisposableEmailCheckResponse\<close> declare none
  (\<open>None\<close>).
\<close>

datatype response =
    R_Verify VerifyResponse
  | R_VerifyMultiple VerifyMultipleResponse
  | R_CheckJobStatus CheckJobStatusResponse
  | R_CreditBalance CreditBalanceResponse
  | R_Disposable DisposableEmailCheckResponse

fun method_Error :: "response \<Rightarrow> error option option" where
  "method_Error (R_Verify v) = Some (VerifyResponse_Error v)"
| "method_Error (R_VerifyMultiple v) = Some (VerifyMultipleResponse_Error v)"
| "method_Error (R_CheckJobStatus v) = None"
| "method_Error (R_CreditBalance v) = Some (CreditBalanceResponse_Error v)"
| "method_Error (R_Disposable v) = None"

text \<open>
  The pieces of a query string between the \<open>&\<close> separators (\<open>strings.Split\<close> on a
  one-byte separator).
\<close>

fun strings_Split :: "string \<Rightarrow> char \<Rightarrow> string list" where
  "strings_Split [] sep = [Nil]"
| "strings_Split (c # cs) sep =
     (if c = sep then [] # strings_Split cs sep
      else (case strings_Split cs sep of [] \<Rightarrow> [c # Nil] | p # ps \<Rightarrow> (c # p) # ps))"

definition query_pieces :: "Request \<Rightarrow> string list" where
  "query_pieces request = strings_Split (u_RawQuery (r_URL request)) (CHR ''&'')"

definition query_byte :: "char \<Rightarrow> bool" where
  "query_byte ch = (isAlnum ch \<or> ch \<in> set ''-_.~%+=&'')"

definition query_has :: "Request \<Rightarrow> string \<Rightarrow> string \<Rightarrow> bool" where
  "query_has request key val =
     (url_QueryEscape key @ ''='' @ url_QueryEscape val \<in> set (query_pieces request))"

definition query_encoded :: "Request \<Rightarrow> bool" where
  "query_encoded request = list_all query_byte (u_RawQuery (r_URL request))"

text \<open>
  The operation's request was built, and the transport answered it with this status code
  and this body.
\<close>

definition answers :: "Client \<Rightarrow> error + Request \<Rightarrow> int \<Rightarrow> string \<Rightarrow> bool" where
  "answers c built status body =
     (case built of
        Inl err \<Rightarrow> False
      | Inr request \<Rightarrow> httpClient c request = Inr \<lparr>StatusCode = status, Body = Inr body\<rparr>)"

subsection \<open>Path templates as the specification reads them\<close>

text \<open>
  A path template is literal text and placeholders \<open>{KEY}\<close>. \<open>realize\<close> follows the
  specification's words: every placeholder whose key has an entry in the substitution map
  is replaced by the entry's value, every other placeholder and all literal text stay.
\<close>

datatype token = Lit string | Ph string

fun render_token :: "token \<Rightarrow> string" where
  "render_token (Lit s) = s"
| "render_token (Ph k) = ''{'' @ k @ ''}''"

definition render :: "token list \<Rightarrow> string" where
  "render t = concat (map render_token t)"

fun fill :: "(string \<times> string) list \<Rightarrow> token \<Rightarrow> string" where
  "fill segments (Lit s) = s"
| "fill segments (Ph k) = (case map_of segments k of Some v \<Rightarrow> v | None \<Rightarrow> ''{'' @ k @ ''}'')"

definition realize :: "(string \<times> string) list \<Rightarrow> token list \<Rightarrow> string" where
  "realize segments t = concat (map (fill segments) t)"

definition brace_free :: "string \<Rightarrow> bool" where
  "brace_free s = (CHR ''{'' \<notin> set s \<and> CHR ''}'' \<notin> set s)"

fun token_ok :: "token \<Rightarrow> bool" where
  "token_ok (Lit s) = (CHR ''{'' \<notin> set s)"
| "token_ok (Ph k) = brace_free k"

definition segments_ok :: "(string \<times> string) list \<Rightarrow> bool" where
  "segments_ok segments =
     (distinct (map fst segments) \<and> list_all (\<lambda>(k, v). brace_free k \<and> CHR ''{'' \<notin> set v) segments)"

text \<open>
  One substitution step on a token: the placeholder of the key becomes the value, as
  literal text.
\<close>

fun subst_token :: "string \<Rightarrow> string \<Rightarrow> token \<Rightarrow> token" where
  "subst_token k v (Lit s) = Lit s"
| "subst_token k v (Ph k') = (if k' = k then Lit v else Ph k')"

text \<open>The values of a parameter in the query string of a request, as they are escaped.\<close>

definition query_values :: "Request \<Rightarrow> string \<Rightarrow> string list" where
  "query_values request key =
     map (drop (length (url_QueryEscape key) + 1))
       (filter (prefix (url_QueryEscape key @ ''='')) (query_pieces request))"

text \<open>The bytes \<open>url.QueryEscape\<close> can produce.\<close>

definition plain :: "char \<Rightarrow> bool" where
  "plain ch = (isAlnum ch \<or> ch \<in> set ''-_.~%+'')"

subsection \<open>Fixtures\<close>

text \<open>
  A runtime and clients in the manner of \<^verbatim>\<open>kickbox_test.go\<close>: a text that starts
  with the base URL parses to that server and the path that follows, a URL is written as
  the base URL and its path, \<open>http.NewRequest\<close> accepts every method, and the decoders
  know one body, the error document of the tests (written on one line).
\<close>

definition responseVerify400BAD :: string where
  \<open>responseVerify400BAD = ''{"message": "An error message describing the problem", "success": false}''\<close>

definition zero_VerifyResponse :: VerifyResponse where
  "zero_VerifyResponse =
     \<lparr>v_Result = [], v_Reason = [], v_Role = False, v_Free = False, v_Disposable = False,
      v_AcceptAll = False, v_DidYouMean = [], v_Sendex = 0, v_Email = [], v_User = [],
      v_Domain = [], v_Success = False, v_Message = []\<rparr>"

definition zero_CheckJobStatusResponse :: CheckJobStatusResponse where
  "zero_CheckJobStatusResponse =
     \<lparr>cj_ID = 0, cj_Name = [], cj_DownloadURL = [], cj_CreatedAt = [], cj_Status = [],
      cj_Progress = \<lparr>p_Deliverable = 0, p_Undeliverable = 0, p_Risky = 0, p_Unknown = 0,
                     p_Total = 0, p_Unprocessed = 0\<rparr>,
      cj_Stats = \<lparr>s_Deliverable = 0, s_Undeliverable = 0, s_Risky = 0, s_Unknown = 0,
                  s_Sendex = 0, s_Addresses = 0\<rparr>,
      cj_Success = False, cj_Message = [], cj_Error = [], cj_Duration = 0\<rparr>"

definition problem :: string where
  "problem = ''An error message describing the problem''"

definition decode_fixture :: "'r \<Rightarrow> string \<Rightarrow> error + 'r" where
  "decode_fixture r data =
     (if data = responseVerify400BAD then Inr r
      else Inl (json_SyntaxError ''invalid character looking for beginning of value''))"

definition test_URL :: URL where
  "test_URL = \<lparr>u_Scheme = ''https'', u_Host = ''api.kickbox.com'', u_Path = [], u_RawQuery = [],
               u_Fragment = []\<rparr>"

definition test_runtime :: "nat \<Rightarrow> runtime" where
  "test_runtime seed =
     \<lparr>url_Parse = (\<lambda>s. if prefix ''https://api.kickbox.com'' s
                        then Inr (test_URL\<lparr>u_Path := drop 23 s\<rparr>)
                        else Inl (url_Error ''parse error'')),
      url_String = (\<lambda>u. ''https://api.kickbox.com'' @ u_Path u),
      url_ParseQuery = (\<lambda>s. []),
      http_NewRequest_error = (\<lambda>method. None),
      decode_VerifyResponse = decode_fixture (zero_VerifyResponse\<lparr>v_Message := problem\<rparr>),
      decode_VerifyMultipleResponse =
        decode_fixture \<lparr>vm_ID = 0, vm_Success = False, vm_Message = problem\<rparr>,
      decode_CheckJobStatusResponse =
        decode_fixture (zero_CheckJobStatusResponse\<lparr>cj_Message := problem\<rparr>),
      decode_CreditBalanceResponse =
        decode_fixture \<lparr>cb_Balance = 0, cb_Success = False, cb_Message = problem\<rparr>,
      decode_DisposableEmailCheckResponse = decode_fixture \<lparr>d_Disposable = False\<rparr>,
      range_seed = seed\<rparr>"

definition test_client :: "(error + Response) \<Rightarrow> Client" where
  "test_client answer =
     \<lparr>baseURL = ''https://api.kickbox.com'', apiKey = ''a_valid_api_key'',
      httpClient = (\<lambda>request. answer)\<rparr>"

section \<open>Properties\<close>

subsection \<open>The operations through their views\<close>

lemma Client_Verify_respond:
  "Client_Verify rt c email = respond (decode_VerifyResponse rt) c (Verify_request rt c email)"
  by (simp add: Client_Verify_def callVerifyService_def respond_def Verify_request_def)

lemma Client_VerifyMultiple_respond:
  "Client_VerifyMultiple rt c urlCallback filename data =
     respond (decode_VerifyMultipleResponse rt) c (VerifyMultiple_request rt c urlCallback filename data)"
  by (simp add: Client_VerifyMultiple_def callVerifyMultipleService_def respond_def
      VerifyMultiple_request_def VerifyMultiple_headers_def split: sum.splits)

lemma Client_CheckJobStatus_respond:
  "Client_CheckJobStatus rt c jobID =
     respond (decode_CheckJobStatusResponse rt) c (CheckJobStatus_request rt c jobID)"
  by (simp add: Client_CheckJobStatus_def callCheckJobStatusService_def respond_def
      CheckJobStatus_request_def)

lemma Client_CreditBalance_respond:
  "Client_CreditBalance rt c = respond (decode_CreditBalanceResponse rt) c (CreditBalance_request rt c)"
  by (simp add: Client_CreditBalance_def callCreditBalanceService_def respond_def
      CreditBalance_request_def)

lemma Client_Disposable_respond:
  "Client_Disposable rt c email =
     respond (decode_DisposableEmailCheckResponse rt) c (Disposable_request rt c email)"
  by (simp add: Client_Disposable_def callDisposableService_def respond_def
      Disposable_request_def)

lemmas Client_respond = Client_Verify_respond Client_VerifyMultiple_respond
  Client_CheckJobStatus_respond Client_CreditBalance_respond Client_Disposable_respond

subsection \<open>What the service calls return\<close>

lemma callService_cases:
  "callService c request = (body, err) \<Longrightarrow> (err = None \<and> body \<noteq> []) \<or> (err \<noteq> None \<and> body = [])"
  by (auto simp: callService_def doRequest_def split: sum.splits if_splits)

lemma json_Unmarshal_Nil:
  "json_Unmarshal decode [] = Inl (json_SyntaxError ''unexpected end of JSON input'')"
  by (simp add: json_Unmarshal_def)

lemma respond_xor: "(fst (respond decode c built) = None) = (snd (respond decode c built) \<noteq> None)"
proof (cases built)
  case (Inl err)
  then show ?thesis by (simp add: respond_def)
next
  case (Inr request)
  obtain body err where cs: "callService c request = (body, err)"
    by (cases "callService c request")
  from callService_cases [OF cs] show ?thesis
    using Inr cs by (auto simp: respond_def json_Unmarshal_Nil split: sum.splits)
qed

lemma respond_empty_body:
  assumes "built = Inr request" "httpClient c request = Inr resp" "Body resp = Inr []"
  shows "callService c request = ([], Some ErrEmptyResponse)"
    and "respond decode c built = (None, Some (json_SyntaxError ''unexpected end of JSON input''))"
  using assms by (simp_all add: respond_def callService_def doRequest_def json_Unmarshal_Nil)

lemma respond_transport_error:
  assumes "built = Inr request" "httpClient c request = Inl e"
  shows "callService c request = ([], Some (errors_New (''Error doing request: '' @ error_Error e)))"
    and "respond decode c built = (None, Some (json_SyntaxError ''unexpected end of JSON input''))"
  using assms by (simp_all add: respond_def callService_def doRequest_def json_Unmarshal_Nil)

lemma respond_read_error:
  assumes "built = Inr request" "httpClient c request = Inr resp" "Body resp = Inl e"
  shows "callService c request = ([], Some (errors_New (''Error doing request: '' @ error_Error e)))"
    and "respond decode c built = (None, Some (json_SyntaxError ''unexpected end of JSON input''))"
  using assms by (simp_all add: respond_def callService_def doRequest_def json_Unmarshal_Nil)

lemma respond_decoded:
  assumes "answers c built status body" "json_Unmarshal decode body = Inr r"
  shows "respond decode c built = (Some r, None)"
proof -
  from assms(2) have ne: "body \<noteq> []"
    by (auto simp: json_Unmarshal_def split: if_splits)
  from assms(1) obtain request where b: "built = Inr request"
    and h: "httpClient c request = Inr \<lparr>StatusCode = status, Body = Inr body\<rparr>"
    by (cases built) (simp_all add: answers_def)
  from h ne have "callService c request = (body, None)"
    by (simp add: callService_def doRequest_def)
  with b assms(2) show ?thesis
    by (simp add: respond_def)
qed

lemma test_build:
  "\<exists>request. buildRequest (test_runtime seed) (test_client answer) method path segments params body
     = Inr request"
  by (simp add: buildRequest_def buildURL_def test_runtime_def test_client_def
      http_NewRequest_def URL_String_def Let_def)

lemma test_requests:
  "\<exists>request. Verify_request (test_runtime seed) (test_client answer) email = Inr request"
  "\<exists>request. VerifyMultiple_request (test_runtime seed) (test_client answer) urlCallback filename data
     = Inr request"
  "\<exists>request. CheckJobStatus_request (test_runtime seed) (test_client answer) jobID = Inr request"
  "\<exists>request. CreditBalance_request (test_runtime seed) (test_client answer) = Inr request"
  "\<exists>request. Disposable_request (test_runtime seed) (test_client answer) email = Inr request"
proof -
  show "\<exists>request. Verify_request (test_runtime seed) (test_client answer) email = Inr request"
    unfolding Verify_request_def by (rule test_build)
  show "\<exists>request. CheckJobStatus_request (test_runtime seed) (test_client answer) jobID = Inr request"
    unfolding CheckJobStatus_request_def by (rule test_build)
  show "\<exists>request. CreditBalance_request (test_runtime seed) (test_client answer) = Inr request"
    unfolding CreditBalance_request_def by (rule test_build)
  show "\<exists>request. Disposable_request (test_runtime seed) (test_client answer) email = Inr request"
    unfolding Disposable_request_def by (rule test_build)
  obtain request where "buildRequest (test_runtime seed) (test_client answer)
      (Method (Endpoints VerifyMultiple)) (Path (Endpoints VerifyMultiple))
      [(''API_VERSION'', ''v2'')] [] (Some data) = Inr request"
    using test_build by blast
  then show "\<exists>request. VerifyMultiple_request (test_runtime seed) (test_client answer) urlCallback filename data
     = Inr request"
    by (simp add: VerifyMultiple_request_def)
qed

subsection \<open>Result predicates\<close>

text \<open>
  C4. For every Verify, VerifyMultiple and CreditBalance result, \<open>Error()\<close> is nil exactly
  when the success flag is true; when the flag is false, \<open>Error()\<close> is a new error whose
  text is the decoded message if the message is not empty, and the sentinel
  \<open>ErrUnknownErrorVerifyingEmail\<close> if it is empty.
\<close>

theorem C4_logical_success:
  "(VerifyResponse_Error v = None) = v_Success v \<and>
   (\<not> v_Success v \<and> v_Message v \<noteq> [] \<longrightarrow>
      VerifyResponse_Error v = Some (errors_New (v_Message v)) \<and>
      error_Error (errors_New (v_Message v)) = v_Message v) \<and>
   (\<not> v_Success v \<and> v_Message v = [] \<longrightarrow>
      VerifyResponse_Error v = Some ErrUnknownErrorVerifyingEmail) \<and>
   (VerifyMultipleResponse_Error vm = None) = vm_Success vm \<and>
   (\<not> vm_Success vm \<and> vm_Message vm \<noteq> [] \<longrightarrow>
      VerifyMultipleResponse_Error vm = Some (errors_New (vm_Message vm)) \<and>
      error_Error (errors_New (vm_Message vm)) = vm_Message vm) \<and>
   (\<not> vm_Success vm \<and> vm_Message vm = [] \<longrightarrow>
      VerifyMultipleResponse_Error vm = Some ErrUnknownErrorVerifyingEmail) \<and>
   (CreditBalanceResponse_Error cb = None) = cb_Success cb \<and>
   (\<not> cb_Success cb \<and> cb_Message cb \<noteq> [] \<longrightarrow>
      CreditBalanceResponse_Error cb = Some (errors_New (cb_Message cb)) \<and>
      error_Error (errors_New (cb_Message cb)) = cb_Message cb) \<and>
   (\<not> cb_Success cb \<and> cb_Message cb = [] \<longrightarrow>
      CreditBalanceResponse_Error cb = Some ErrUnknownErrorVerifyingEmail)"
  by (simp add: VerifyResponse_Error_def VerifyMultipleResponse_Error_def
      CreditBalanceResponse_Error_def)

theorem C4_logical_success_witness:
  "VerifyResponse_Error (zero_VerifyResponse\<lparr>v_Message := problem\<rparr>) = Some (errors_New problem) \<and>
   VerifyMultipleResponse_Error \<lparr>vm_ID = 0, vm_Success = False, vm_Message = []\<rparr>
     = Some ErrUnknownErrorVerifyingEmail \<and>
   CreditBalanceResponse_Error \<lparr>cb_Balance = 1337, cb_Success = True, cb_Message = []\<rparr> = None"
  using C4_logical_success [of "zero_VerifyResponse\<lparr>v_Message := problem\<rparr>"
      "\<lparr>vm_ID = 0, vm_Success = False, vm_Message = []\<rparr>"
      "\<lparr>cb_Balance = 1337, cb_Success = True, cb_Message = []\<rparr>"]
  by (simp add: zero_VerifyResponse_def problem_def)

text \<open>
  C5. \<open>IsValid()\<close> is true exactly when the result category is "deliverable"; it is false
  for "risky", "unknown" and "undeliverable".
\<close>

theorem C5_IsValid:
  "VerifyResponse_IsValid v = (v_Result v = ''deliverable'') \<and>
   \<not> VerifyResponse_IsValid (v\<lparr>v_Result := ''risky''\<rparr>) \<and>
   \<not> VerifyResponse_IsValid (v\<lparr>v_Result := ''unknown''\<rparr>) \<and>
   \<not> VerifyResponse_IsValid (v\<lparr>v_Result := ''undeliverable''\<rparr>)"
  by (simp add: VerifyResponse_IsValid_def)

text \<open>
  C6. \<open>IsStarting()\<close>, \<open>IsProcessing()\<close> and \<open>IsCompleted()\<close> hold exactly when the status
  is "starting", "processing" and "completed"; no two of them hold together, and for any
  other status none holds.
\<close>

theorem C6_status_predicates:
  "IsStarting r = (cj_Status r = ''starting'') \<and>
   IsProcessing r = (cj_Status r = ''processing'') \<and>
   IsCompleted r = (cj_Status r = ''completed'') \<and>
   \<not> (IsStarting r \<and> IsProcessing r) \<and>
   \<not> (IsStarting r \<and> IsCompleted r) \<and>
   \<not> (IsProcessing r \<and> IsCompleted r) \<and>
   (cj_Status r \<notin> {''starting'', ''processing'', ''completed''} \<longrightarrow>
      \<not> IsStarting r \<and> \<not> IsProcessing r \<and> \<not> IsCompleted r)"
  by (auto simp: IsStarting_def IsProcessing_def IsCompleted_def)

theorem C6_status_predicates_witness:
  "\<not> IsStarting (zero_CheckJobStatusResponse\<lparr>cj_Status := ''failed''\<rparr>) \<and>
   \<not> IsProcessing (zero_CheckJobStatusResponse\<lparr>cj_Status := ''failed''\<rparr>) \<and>
   \<not> IsCompleted (zero_CheckJobStatusResponse\<lparr>cj_Status := ''failed''\<rparr>) \<and>
   IsProcessing (zero_CheckJobStatusResponse\<lparr>cj_Status := ''processing''\<rparr>) \<and>
   \<not> IsStarting (zero_CheckJobStatusResponse\<lparr>cj_Status := ''processing''\<rparr>) \<and>
   \<not> IsCompleted (zero_CheckJobStatusResponse\<lparr>cj_Status := ''processing''\<rparr>)"
  using C6_status_predicates [of "zero_CheckJobStatusResponse\<lparr>cj_Status := ''failed''\<rparr>"]
    C6_status_predicates [of "zero_CheckJobStatusResponse\<lparr>cj_Status := ''processing''\<rparr>"]
  by simp

subsection \<open>The returned pair\<close>

text \<open>
  C10. For every operation, whatever the transport and the decoder do, exactly one
  component of the returned pair is nil: the result is nil if and only if the error is not.
  The error of \<open>callService\<close> is never returned beside a decoded result, since it comes
  with an empty body, which \<open>json.Unmarshal\<close> rejects.
\<close>

theorem C10_exactly_one_nil:
  "(fst (Client_Verify rt c email) = None) = (snd (Client_Verify rt c email) \<noteq> None) \<and>
   (fst (Client_VerifyMultiple rt c urlCallback filename data) = None)
      = (snd (Client_VerifyMultiple rt c urlCallback filename data) \<noteq> None) \<and>
   (fst (Client_CheckJobStatus rt c jobID) = None) = (snd (Client_CheckJobStatus rt c jobID) \<noteq> None) \<and>
   (fst (Client_CreditBalance rt c) = None) = (snd (Client_CreditBalance rt c) \<noteq> None) \<and>
   (fst (Client_Disposable rt c email) = None) = (snd (Client_Disposable rt c email) \<noteq> None)"
  unfolding Client_respond
  by (intro conjI respond_xor)

lemma test_empty_body:
  assumes "\<exists>request. built = Inr request"
  shows "respond decode (test_client (Inr \<lparr>StatusCode = s, Body = Inr []\<rparr>)) built
           = (None, Some (json_SyntaxError ''unexpected end of JSON input''))"
proof -
  from assms obtain request where b: "built = Inr request" by blast
  show ?thesis
    by (rule respond_empty_body(2) [OF b, where resp = "\<lparr>StatusCode = s, Body = Inr []\<rparr>"])
      (simp_all add: test_client_def)
qed

lemma test_transport_error:
  assumes "\<exists>request. built = Inr request"
  shows "respond decode (test_client (Inl e)) built
           = (None, Some (json_SyntaxError ''unexpected end of JSON input''))"
proof -
  from assms obtain request where b: "built = Inr request" by blast
  show ?thesis
    by (rule respond_transport_error(2) [OF b]) (simp add: test_client_def)
qed

text \<open>
  C1. With a transport that answers HTTP 200 and a body of no bytes, \<open>callService\<close>
  returns \<open>ErrEmptyResponse\<close>, but every operation then decodes the nil body and
  returns the decoder's syntax error with a nil result: the sentinel never reaches the
  caller.
\<close>

theorem C1_empty_body_error_lost:
  "callService (test_client (Inr \<lparr>StatusCode = 200, Body = Inr []\<rparr>))
       \<lparr>r_Method = ''GET'', r_URL = test_URL, r_Header = Map.empty, r_Body = None\<rparr>
     = ([], Some ErrEmptyResponse) \<and>
   Client_Verify (test_runtime 0) (test_client (Inr \<lparr>StatusCode = 200, Body = Inr []\<rparr>))
       ''a_valid@email.com''
     = (None, Some (json_SyntaxError ''unexpected end of JSON input'')) \<and>
   Client_VerifyMultiple (test_runtime 0) (test_client (Inr \<lparr>StatusCode = 200, Body = Inr []\<rparr>))
       ''http://callback.com'' ''filename.txt'' ''test@test.com,Foo Bar''
     = (None, Some (json_SyntaxError ''unexpected end of JSON input'')) \<and>
   Client_CheckJobStatus (test_runtime 0) (test_client (Inr \<lparr>StatusCode = 200, Body = Inr []\<rparr>)) 415
     = (None, Some (json_SyntaxError ''unexpected end of JSON input'')) \<and>
   Client_CreditBalance (test_runtime 0) (test_client (Inr \<lparr>StatusCode = 200, Body = Inr []\<rparr>))
     = (None, Some (json_SyntaxError ''unexpected end of JSON input'')) \<and>
   Client_Disposable (test_runtime 0) (test_client (Inr \<lparr>StatusCode = 200, Body = Inr []\<rparr>))
       ''email@address.com''
     = (None, Some (json_SyntaxError ''unexpected end of JSON input''))"
  unfolding Client_respond
  by (intro conjI test_empty_body test_requests)
    (simp add: callService_def doRequest_def test_client_def)

text \<open>
  C2. With a transport whose round trip fails, \<open>callService\<close> returns the error wrapped
  as "Error doing request: ...", but every operation then decodes the nil body and
  returns the decoder's syntax error with a nil result: the wrapped transport error never
  reaches the caller.
\<close>

theorem C2_transport_error_lost:
  "callService (test_client (Inl (http_Error ''dial tcp 127.0.0.1:80: connect: connection refused'')))
       \<lparr>r_Method = ''GET'', r_URL = test_URL, r_Header = Map.empty, r_Body = None\<rparr>
     = ([], Some (errors_New
          ''Error doing request: dial tcp 127.0.0.1:80: connect: connection refused'')) \<and>
   Client_Verify (test_runtime 0)
       (test_client (Inl (http_Error ''dial tcp 127.0.0.1:80: connect: connection refused'')))
       ''a_valid@email.com''
     = (None, Some (json_SyntaxError ''unexpected end of JSON input'')) \<and>
   Client_VerifyMultiple (test_runtime 0)
       (test_client (Inl (http_Error ''dial tcp 127.0.0.1:80: connect: connection refused'')))
       ''http://callback.com'' ''filename.txt'' ''test@test.com,Foo Bar''
     = (None, Some (json_SyntaxError ''unexpected end of JSON input'')) \<and>
   Client_CheckJobStatus (test_runtime 0)
       (test_client (Inl (http_Error ''dial tcp 127.0.0.1:80: connect: connection refused''))) 415
     = (None, Some (json_SyntaxError ''unexpected end of JSON input'')) \<and>
   Client_CreditBalance (test_runtime 0)
       (test_client (Inl (http_Error ''dial tcp 127.0.0.1:80: connect: connection refused'')))
     = (None, Some (json_SyntaxError ''unexpected end of JSON input'')) \<and>
   Client_Disposable (test_runtime 0)
       (test_client (Inl (http_Error ''dial tcp 127.0.0.1:80: connect: connection refused'')))
       ''email@address.com''
     = (None, Some (json_SyntaxError ''unexpected end of JSON input''))"
  unfolding Client_respond
  by (intro conjI test_transport_error test_requests)
    (simp add: callService_def doRequest_def test_client_def)

subsection \<open>The status code\<close>

lemma buildRequest_with_status:
  "buildRequest rt (with_status f c) method path segments params body
     = buildRequest rt c method path segments params body"
  by (simp add: buildRequest_def buildURL_def with_status_def)

lemma callService_with_status: "callService (with_status f c) request = callService c request"
  by (simp add: callService_def doRequest_def with_status_def split: sum.splits)

lemma respond_with_status: "respond decode (with_status f c) built = respond decode c built"
  by (cases built) (simp_all add: respond_def callService_with_status)

lemma requests_with_status:
  "Verify_request rt (with_status f c) email = Verify_request rt c email"
  "VerifyMultiple_request rt (with_status f c) urlCallback filename data
     = VerifyMultiple_request rt c urlCallback filename data"
  "CheckJobStatus_request rt (with_status f c) jobID = CheckJobStatus_request rt c jobID"
  "CreditBalance_request rt (with_status f c) = CreditBalance_request rt c"
  "Disposable_request rt (with_status f c) email = Disposable_request rt c email"
  by (simp_all add: Verify_request_def VerifyMultiple_request_def CheckJobStatus_request_def
      CreditBalance_request_def Disposable_request_def buildRequest_with_status)

text \<open>
  C3 as amended. No operation inspects the HTTP status code: behind a transport that
  reports any other status codes every operation returns the same pair. When the
  transport answers the request with HTTP 400 and a body that decodes, each of the five
  operations returns the decoded result and a nil error, whatever the result holds; for
  Verify, VerifyMultiple and CreditBalance, if the result has a false success flag and a
  non-empty message, its \<open>Error()\<close> is a new error whose text is that message. The
  results of CheckJobStatus and Disposable have no \<open>Error()\<close> method.
\<close>

theorem C3_status_code_not_inspected:
  "Client_Verify rt (with_status f c) email = Client_Verify rt c email \<and>
   Client_VerifyMultiple rt (with_status f c) urlCallback filename data
     = Client_VerifyMultiple rt c urlCallback filename data \<and>
   Client_CheckJobStatus rt (with_status f c) jobID = Client_CheckJobStatus rt c jobID \<and>
   Client_CreditBalance rt (with_status f c) = Client_CreditBalance rt c \<and>
   Client_Disposable rt (with_status f c) email = Client_Disposable rt c email \<and>
   (answers c (Verify_request rt c email) 400 body1 \<and>
    json_Unmarshal (decode_VerifyResponse rt) body1 = Inr r1 \<longrightarrow>
      Client_Verify rt c email = (Some r1, None) \<and>
      (\<not> v_Success r1 \<and> v_Message r1 \<noteq> [] \<longrightarrow>
         VerifyResponse_Error r1 = Some (errors_New (v_Message r1)) \<and>
         error_Error (errors_New (v_Message r1)) = v_Message r1)) \<and>
   (answers c (VerifyMultiple_request rt c urlCallback filename data) 400 body2 \<and>
    json_Unmarshal (decode_VerifyMultipleResponse rt) body2 = Inr r2 \<longrightarrow>
      Client_VerifyMultiple rt c urlCallback filename data = (Some r2, None) \<and>
      (\<not> vm_Success r2 \<and> vm_Message r2 \<noteq> [] \<longrightarrow>
         VerifyMultipleResponse_Error r2 = Some (errors_New (vm_Message r2)) \<and>
         error_Error (errors_New (vm_Message r2)) = vm_Message r2)) \<and>
   (answers c (CreditBalance_request rt c) 400 body3 \<and>
    json_Unmarshal (decode_CreditBalanceResponse rt) body3 = Inr r3 \<longrightarrow>
      Client_CreditBalance rt c = (Some r3, None) \<and>
      (\<not> cb_Success r3 \<and> cb_Message r3 \<noteq> [] \<longrightarrow>
         CreditBalanceResponse_Error r3 = Some (errors_New (cb_Message r3)) \<and>
         error_Error (errors_New (cb_Message r3)) = cb_Message r3)) \<and>
   (answers c (CheckJobStatus_request rt c jobID) 400 body4 \<and>
    json_Unmarshal (decode_CheckJobStatusResponse rt) body4 = Inr r4 \<longrightarrow>
      Client_CheckJobStatus rt c jobID = (Some r4, None) \<and>
      method_Error (R_CheckJobStatus r4) = None) \<and>
   (answers c (Disposable_request rt c email) 400 body5 \<and>
    json_Unmarshal (decode_DisposableEmailCheckResponse rt) body5 = Inr r5 \<longrightarrow>
      Client_Disposable rt c email = (Some r5, None) \<and>
      method_Error (R_Disposable r5) = None)"
  unfolding Client_respond requests_with_status respond_with_status
  by (simp add: VerifyResponse_Error_def VerifyMultipleResponse_Error_def
      CreditBalanceResponse_Error_def) (blast intro: respond_decoded)

lemma test_answers:
  assumes "\<exists>request. built = Inr request"
  shows "answers (test_client (Inr \<lparr>StatusCode = s, Body = Inr body\<rparr>)) built s body"
  using assms by (auto simp: answers_def test_client_def)

lemma test_decoders:
  "decode_VerifyResponse (test_runtime seed) = decode_fixture (zero_VerifyResponse\<lparr>v_Message := problem\<rparr>)"
  "decode_VerifyMultipleResponse (test_runtime seed)
     = decode_fixture \<lparr>vm_ID = 0, vm_Success = False, vm_Message = problem\<rparr>"
  "decode_CheckJobStatusResponse (test_runtime seed)
     = decode_fixture (zero_CheckJobStatusResponse\<lparr>cj_Message := problem\<rparr>)"
  "decode_CreditBalanceResponse (test_runtime seed)
     = decode_fixture \<lparr>cb_Balance = 0, cb_Success = False, cb_Message = problem\<rparr>"
  "decode_DisposableEmailCheckResponse (test_runtime seed) = decode_fixture \<lparr>d_Disposable = False\<rparr>"
  by (simp_all add: test_runtime_def)

lemma test_decode: "json_Unmarshal (decode_fixture r) responseVerify400BAD = Inr r"
  by (simp add: json_Unmarshal_def decode_fixture_def responseVerify400BAD_def)

theorem C3_status_code_not_inspected_witness:
  "Client_Verify (test_runtime 0) (test_client (Inr \<lparr>StatusCode = 400, Body = Inr responseVerify400BAD\<rparr>))
       ''a_valid@email.com''
     = (Some (zero_VerifyResponse\<lparr>v_Message := problem\<rparr>), None) \<and>
   VerifyResponse_Error (zero_VerifyResponse\<lparr>v_Message := problem\<rparr>) = Some (errors_New problem) \<and>
   Client_VerifyMultiple (test_runtime 0)
       (test_client (Inr \<lparr>StatusCode = 400, Body = Inr responseVerify400BAD\<rparr>))
       ''http://callback.com'' ''filename.txt'' ''test@test.com,Foo Bar''
     = (Some \<lparr>vm_ID = 0, vm_Success = False, vm_Message = problem\<rparr>, None) \<and>
   VerifyMultipleResponse_Error \<lparr>vm_ID = 0, vm_Success = False, vm_Message = problem\<rparr>
     = Some (errors_New problem) \<and>
   Client_CreditBalance (test_runtime 0)
       (test_client (Inr \<lparr>StatusCode = 400, Body = Inr responseVerify400BAD\<rparr>))
     = (Some \<lparr>cb_Balance = 0, cb_Success = False, cb_Message = problem\<rparr>, None) \<and>
   CreditBalanceResponse_Error \<lparr>cb_Balance = 0, cb_Success = False, cb_Message = problem\<rparr>
     = Some (errors_New problem) \<and>
   Client_CheckJobStatus (test_runtime 0)
       (test_client (Inr \<lparr>StatusCode = 400, Body = Inr responseVerify400BAD\<rparr>)) 415
     = (Some (zero_CheckJobStatusResponse\<lparr>cj_Message := problem\<rparr>), None) \<and>
   Client_Disposable (test_runtime 0)
       (test_client (Inr \<lparr>StatusCode = 400, Body = Inr responseVerify400BAD\<rparr>)) ''a_valid@email.com''
     = (Some \<lparr>d_Disposable = False\<rparr>, None)"
  using C3_status_code_not_inspected [where rt = "test_runtime 0" and f = "\<lambda>s. s"
      and c = "test_client (Inr \<lparr>StatusCode = 400, Body = Inr responseVerify400BAD\<rparr>)"
      and email = "''a_valid@email.com''" and urlCallback = "''http://callback.com''"
      and filename = "''filename.txt''" and data = "''test@test.com,Foo Bar''" and jobID = 415
      and ?body1.0 = responseVerify400BAD and ?r1.0 = "zero_VerifyResponse\<lparr>v_Message := problem\<rparr>"
      and ?body2.0 = responseVerify400BAD
      and ?r2.0 = "\<lparr>vm_ID = 0, vm_Success = False, vm_Message = problem\<rparr>"
      and ?body3.0 = responseVerify400BAD
      and ?r3.0 = "\<lparr>cb_Balance = 0, cb_Success = False, cb_Message = problem\<rparr>"
      and ?body4.0 = responseVerify400BAD
      and ?r4.0 = "zero_CheckJobStatusResponse\<lparr>cj_Message := problem\<rparr>"
      and ?body5.0 = responseVerify400BAD and ?r5.0 = "\<lparr>d_Disposable = False\<rparr>"]
  by (simp add: test_answers test_requests test_decode test_decoders zero_VerifyResponse_def
      problem_def)

text \<open>
  C3 as stated fails for Disposable (and CheckJobStatus): HTTP 400 with the error document
  decodes to a result with a nil error, but the result type declares no \<open>Error()\<close>
  method that could return the message.
\<close>

theorem C3_counterexample:
  "Client_Disposable (test_runtime 0)
       (test_client (Inr \<lparr>StatusCode = 400, Body = Inr responseVerify400BAD\<rparr>)) ''email@address.com''
     = (Some \<lparr>d_Disposable = False\<rparr>, None) \<and>
   method_Error (R_Disposable \<lparr>d_Disposable = False\<rparr>) \<noteq> Some (Some (errors_New problem))"
  unfolding Client_respond
  by (simp add: respond_decoded [OF test_answers [OF test_requests(5)]] test_decode test_decoders)

subsection \<open>The built request\<close>

lemma buildRequest_Inr:
  assumes "buildRequest rt c method path segments params body = Inr request"
  obtains u u' where "url_Parse rt (baseURL c) = Inr u"
    and "request =
      \<lparr>r_Method = (if method = [] then ''GET'' else method),
       r_URL = u'\<lparr>u_RawQuery := Values_Encode (fold (\<lambda>(k, v) q. Values_Set q k v)
                    (AList.update ''apikey'' (apiKey c) params) (url_ParseQuery rt (u_RawQuery u)))\<rparr>,
       r_Header = Map.empty, r_Body = body\<rparr>"
  using assms
  by (auto simp: buildRequest_def buildURL_def http_NewRequest_def URL_String_def Let_def
      split: sum.splits option.splits)

lemma Header_add_headers:
  "r_Header (add_headers headers request)
     = fold (\<lambda>(key, val) h. Header_Add h key val) headers (r_Header request)"
  unfolding add_headers_def
  by (induction headers arbitrary: request) (auto)

lemma canonical_keys:
  "CanonicalMIMEHeaderKey ''X-Kickbox-Callback'' = ''X-Kickbox-Callback''"
  "CanonicalMIMEHeaderKey ''X-Kickbox-Filename'' = ''X-Kickbox-Filename''"
  by code_simp+

lemma Header_Add_commute:
  assumes "CanonicalMIMEHeaderKey k1 \<noteq> CanonicalMIMEHeaderKey k2"
  shows "Header_Add (Header_Add h k1 v1) k2 v2 = Header_Add (Header_Add h k2 v2) k1 v1"
  using assms by (auto simp: Header_Add_def Let_def fun_eq_iff)

text \<open>
  C9. The request VerifyMultiple sends carries \<open>X-Kickbox-Callback\<close> with exactly the
  callback as its one value if the callback is not empty and does not carry the header at
  all if it is empty; the same holds for \<open>X-Kickbox-Filename\<close> and the filename. It
  carries no other header, and no header with an empty value.
\<close>

theorem C9_optional_headers:
  assumes "VerifyMultiple_request rt c urlCallback filename data = Inr request"
  shows "r_Header request ''X-Kickbox-Callback'' = (if urlCallback \<noteq> [] then Some [urlCallback] else None) \<and>
         r_Header request ''X-Kickbox-Filename'' = (if filename \<noteq> [] then Some [filename] else None) \<and>
         dom (r_Header request) \<subseteq> {''X-Kickbox-Callback'', ''X-Kickbox-Filename''} \<and>
         [Nil] \<notin> ran (r_Header request)"
proof -
  from assms obtain request0 where
    b: "buildRequest rt c (Method (Endpoints VerifyMultiple)) (Path (Endpoints VerifyMultiple))
          [(''API_VERSION'', ''v2'')] [] (Some data) = Inr request0"
    and r: "request = add_headers (VerifyMultiple_headers urlCallback filename) request0"
    by (auto simp: VerifyMultiple_request_def split: sum.splits)
  from b have h0: "r_Header request0 = Map.empty"
    by (rule buildRequest_Inr) simp
  show ?thesis
    unfolding r Header_add_headers h0
    by (auto simp: VerifyMultiple_headers_def Header_Add_def canonical_keys ran_def split: if_splits)
qed

theorem C9_optional_headers_witness:
  "(case VerifyMultiple_request (test_runtime 0) (test_client (Inl (http_Error ''unused'')))
           ''http://callback.com'' [] ''test@test.com,Foo Bar'' of
      Inl err \<Rightarrow> False
    | Inr request \<Rightarrow>
        r_Header request ''X-Kickbox-Callback'' = Some [''http://callback.com''] \<and>
        r_Header request ''X-Kickbox-Filename'' = None)"
proof -
  obtain request where r: "VerifyMultiple_request (test_runtime 0)
      (test_client (Inl (http_Error ''unused''))) ''http://callback.com'' [] ''test@test.com,Foo Bar''
        = Inr request"
    using test_requests(2) by blast
  from C9_optional_headers [OF r] show ?thesis
    by (simp add: r)
qed

subsection \<open>The query string\<close>

lemma upperhex_table: "list_all (\<lambda>n. isAlnum (upperhex n)) [0..<16]"
  by code_simp

lemma upperhex_alnum: "n < 16 \<Longrightarrow> isAlnum (upperhex n)"
  using upperhex_table by (simp add: list_all_iff)

lemma not_alnum: "\<not> isAlnum (CHR ''&'')" "\<not> isAlnum (CHR ''='')"
  by code_simp+

lemma plain_not_sep: "plain ch \<Longrightarrow> ch \<noteq> CHR ''&'' \<and> ch \<noteq> CHR ''=''"
  using not_alnum by (auto simp: plain_def)

lemma plain_escape_byte: "ch \<in> set (escape_byte c) \<Longrightarrow> plain ch"
proof -
  have "(of_char c :: nat) div 16 < 16" "(of_char c :: nat) mod 16 < 16"
    using nat_of_char_less_256 [of c] by (simp_all add: less_mult_imp_div_less)
  then have "isAlnum (upperhex (of_char c div 16))" "isAlnum (upperhex (of_char c mod 16))"
    by (simp_all add: upperhex_alnum)
  then show "ch \<in> set (escape_byte c) \<Longrightarrow> plain ch"
    by (auto simp: escape_byte_def plain_def shouldEscape_def split: if_splits)
qed

lemma plain_QueryEscape: "ch \<in> set (url_QueryEscape s) \<Longrightarrow> plain ch"
  by (auto simp: url_QueryEscape_def dest: plain_escape_byte)

lemma Split_no_sep: "sep \<notin> set p \<Longrightarrow> strings_Split p sep = [p]"
  by (induction p) auto

lemma Split_append: "sep \<notin> set p \<Longrightarrow> strings_Split (p @ sep # rest) sep = p # strings_Split rest sep"
  by (induction p) auto

lemma Split_Join:
  assumes "ps \<noteq> []" "\<forall>p \<in> set ps. sep \<notin> set p"
  shows "strings_Split (strings_Join ps [sep]) sep = ps"
  using assms
proof (induction ps "[sep]" rule: strings_Join.induct)
  case 1
  then show ?case by simp
next
  case (2 x)
  then show ?case by (simp add: Split_no_sep)
next
  case (3 x y ys)
  then show ?case by (simp add: Split_append)
qed

lemma piece_no_amp: "CHR ''&'' \<notin> set (url_QueryEscape k @ ''='' @ url_QueryEscape v)"
  using plain_not_sep plain_QueryEscape by auto

lemma piece_bytes: "ch \<in> set (url_QueryEscape k @ ''='' @ url_QueryEscape v) \<Longrightarrow> query_byte ch"
  using plain_QueryEscape [of ch k] plain_QueryEscape [of ch v]
  by (auto simp: query_byte_def plain_def)

lemma Values_pairs_shape:
  "p \<in> set (Values_pairs q) \<Longrightarrow> \<exists>k v. p = url_QueryEscape k @ ''='' @ url_QueryEscape v"
  by (auto simp: Values_pairs_def)

lemma Join_bytes:
  "ch \<in> set (strings_Join ps sep) \<Longrightarrow> ch \<in> set sep \<or> (\<exists>p \<in> set ps. ch \<in> set p)"
  by (induction ps sep rule: strings_Join.induct) auto

lemma Values_Encode_bytes: "ch \<in> set (Values_Encode q) \<Longrightarrow> query_byte ch"
proof -
  assume "ch \<in> set (Values_Encode q)"
  then consider "ch = CHR ''&''" | p where "p \<in> set (Values_pairs q)" "ch \<in> set p"
    unfolding Values_Encode_def by (auto dest: Join_bytes)
  then show ?thesis
  proof cases
    case 1
    then show ?thesis by (simp add: query_byte_def)
  next
    case 2
    then show ?thesis using Values_pairs_shape piece_bytes by blast
  qed
qed

lemma Values_pairs_member:
  assumes "map_of q k = Some vs" "v \<in> set vs"
  shows "url_QueryEscape k @ ''='' @ url_QueryEscape v \<in> set (Values_pairs q)"
proof -
  from assms(1) have "k \<in> set (Values_keys q)"
    by (auto simp: Values_keys_def dest: map_of_SomeD intro: rev_image_eqI)
  with assms show ?thesis
    by (auto simp: Values_pairs_def Values_Get_def intro!: bexI [of _ k])
qed

lemma Split_Encode:
  assumes "Values_pairs q \<noteq> []"
  shows "strings_Split (Values_Encode q) (CHR ''&'') = Values_pairs q"
proof -
  have "\<forall>p \<in> set (Values_pairs q). CHR ''&'' \<notin> set p"
  proof
    fix p assume "p \<in> set (Values_pairs q)"
    then obtain k v where "p = url_QueryEscape k @ ''='' @ url_QueryEscape v"
      using Values_pairs_shape by blast
    then show "CHR ''&'' \<notin> set p" by (simp only: piece_no_amp not_False_eq_True)
  qed
  with assms show ?thesis
    unfolding Values_Encode_def by (rule Split_Join)
qed

lemma query_has_built:
  assumes "buildRequest rt c method path segments params body = Inr request"
    and "url_Parse rt (baseURL c) = Inr u"
    and "map_of (fold (\<lambda>(k, v) q. Values_Set q k v) (AList.update ''apikey'' (apiKey c) params)
           (url_ParseQuery rt (u_RawQuery u))) k = Some [v]"
  shows "query_has request k v"
proof -
  let ?q = "fold (\<lambda>(k, v) q. Values_Set q k v) (AList.update ''apikey'' (apiKey c) params)
           (url_ParseQuery rt (u_RawQuery u))"
  from assms(1,2) have raw: "u_RawQuery (r_URL request) = Values_Encode ?q"
    by (auto elim!: buildRequest_Inr)
  have mem: "url_QueryEscape k @ ''='' @ url_QueryEscape v \<in> set (Values_pairs ?q)"
    using assms(3) by (rule Values_pairs_member) simp
  then have "Values_pairs ?q \<noteq> []" by auto
  then show ?thesis
    using mem by (simp add: query_has_def query_pieces_def raw Split_Encode)
qed

lemma query_encoded_built:
  assumes "buildRequest rt c method path segments params body = Inr request"
  shows "query_encoded request"
  using assms
  by (auto elim!: buildRequest_Inr simp: query_encoded_def list_all_iff Values_Encode_bytes)

lemma URL_add_headers: "r_URL (add_headers headers request) = r_URL request"
  unfolding add_headers_def
  by (induction headers arbitrary: request) auto

lemma query_add_headers:
  "query_has (add_headers headers request) k v = query_has request k v"
  "query_encoded (add_headers headers request) = query_encoded request"
  by (simp_all add: query_has_def query_pieces_def query_encoded_def URL_add_headers)

lemma query_has_apikey:
  assumes b: "buildRequest rt c method path segments [] body = Inr request"
  shows "query_has request ''apikey'' (apiKey c)"
proof -
  from b obtain u where u: "url_Parse rt (baseURL c) = Inr u"
    by (rule buildRequest_Inr)
  show ?thesis
    by (rule query_has_built [OF b u]) (simp add: Values_Set_def update_conv')
qed

lemma literal_keys: "url_QueryEscape ''apikey'' = ''apikey''" "url_QueryEscape ''email'' = ''email''"
  by code_simp+

subsection \<open>Segment substitution\<close>

lemma prefix_sep_unique:
  "c \<notin> set a \<Longrightarrow> c \<notin> set b \<Longrightarrow> prefix (a @ [c]) (b @ c # x) \<Longrightarrow> a = b"
proof (induction a arbitrary: b)
  case Nil
  then show ?case by (cases b) auto
next
  case (Cons e a)
  then show ?case by (cases b) auto
qed

lemma Replace_Nil: "strings_Replace [] (c # old) new = []"
  by (simp add: strings_Replace.simps)

lemma Replace_skip:
  "CHR ''{'' \<notin> set s \<Longrightarrow>
     strings_Replace (s @ rest) (CHR ''{'' # k @ ''}'') v = s @ strings_Replace rest (CHR ''{'' # k @ ''}'') v"
proof (induction s)
  case Nil
  then show ?case by simp
next
  case (Cons c s)
  then have "strings_Replace ((c # s) @ rest) (CHR ''{'' # k @ ''}'') v
      = c # strings_Replace (s @ rest) (CHR ''{'' # k @ ''}'') v"
    by (subst strings_Replace.simps) auto
  with Cons show ?case by simp
qed

lemma Replace_hit:
  "strings_Replace (CHR ''{'' # k @ CHR ''}'' # rest) (CHR ''{'' # k @ ''}'') v
     = v @ strings_Replace rest (CHR ''{'' # k @ ''}'') v"
  by (subst strings_Replace.simps) simp

lemma Replace_miss:
  assumes "brace_free k" "brace_free k'" "k' \<noteq> k"
  shows "strings_Replace (CHR ''{'' # k' @ CHR ''}'' # rest) (CHR ''{'' # k @ ''}'') v
     = CHR ''{'' # k' @ CHR ''}'' # strings_Replace rest (CHR ''{'' # k @ ''}'') v"
proof -
  have "\<not> prefix (k @ ''}'') (k' @ CHR ''}'' # rest)"
    using assms prefix_sep_unique [of "CHR ''}''" k k' rest] by (auto simp: brace_free_def)
  then have "strings_Replace (CHR ''{'' # k' @ CHR ''}'' # rest) (CHR ''{'' # k @ ''}'') v
      = CHR ''{'' # strings_Replace (k' @ CHR ''}'' # rest) (CHR ''{'' # k @ ''}'') v"
    by (subst strings_Replace.simps) simp
  also have "strings_Replace (k' @ CHR ''}'' # rest) (CHR ''{'' # k @ ''}'') v
      = k' @ CHR ''}'' # strings_Replace rest (CHR ''{'' # k @ ''}'') v"
    using assms(2) Replace_skip [of "k' @ ''}''" rest k v] by (simp add: brace_free_def)
  finally show ?thesis by simp
qed

lemma Replace_token:
  assumes "token_ok tok" "brace_free k"
  shows "strings_Replace (render_token tok @ rest) (CHR ''{'' # k @ ''}'') v
     = render_token (subst_token k v tok) @ strings_Replace rest (CHR ''{'' # k @ ''}'') v"
proof (cases tok)
  case (Lit s)
  with assms show ?thesis by (simp add: Replace_skip)
next
  case (Ph k')
  with assms show ?thesis
    using Replace_hit [of k rest v] Replace_miss [of k k' rest v] by auto
qed

lemma Replace_render:
  assumes "list_all token_ok t" "brace_free k"
  shows "strings_Replace (render t) (CHR ''{'' # k @ ''}'') v = render (map (subst_token k v) t)"
  using assms(1)
proof (induction t)
  case Nil
  then show ?case by (simp add: render_def Replace_Nil)
next
  case (Cons tok t)
  then show ?case
    using Replace_token [of tok k "render t" v] assms(2) by (simp add: render_def)
qed

lemma subst_token_ok: "CHR ''{'' \<notin> set v \<Longrightarrow> token_ok tok \<Longrightarrow> token_ok (subst_token k v tok)"
  by (cases tok) auto

lemma substitute_render:
  assumes "list_all (\<lambda>(k, v). brace_free k \<and> CHR ''{'' \<notin> set v) segments" "list_all token_ok t"
  shows "substitute segments (render t)
     = render (map (fold (\<lambda>(k, v). subst_token k v) segments) t)"
  using assms
proof (induction segments arbitrary: t)
  case Nil
  then show ?case by (simp add: substitute_def)
next
  case (Cons kv segments)
  obtain k v where kv: "kv = (k, v)" by (cases kv)
  with Cons.prems have k: "brace_free k" and v: "CHR ''{'' \<notin> set v"
    and rest: "list_all (\<lambda>(k, v). brace_free k \<and> CHR ''{'' \<notin> set v) segments"
    by simp_all
  have ok: "list_all token_ok (map (subst_token k v) t)"
    using Cons.prems(2) v by (simp add: list_all_iff subst_token_ok)
  have "substitute (kv # segments) (render t)
      = substitute segments (strings_Replace (render t) (CHR ''{'' # k @ ''}'') v)"
    by (simp add: substitute_def kv)
  also have "\<dots> = substitute segments (render (map (subst_token k v) t))"
    using Cons.prems(2) k by (simp add: Replace_render)
  also have "\<dots> = render (map (fold (\<lambda>(k, v). subst_token k v) segments) (map (subst_token k v) t))"
    using rest ok by (rule Cons.IH)
  finally show ?case by (simp add: kv comp_def)
qed

lemma fold_subst_Lit: "fold (\<lambda>(k, v). subst_token k v) segments (Lit s) = Lit s"
  by (induction segments) auto

lemma fold_subst_fill:
  "render_token (fold (\<lambda>(k, v). subst_token k v) segments tok) = fill segments tok"
proof (induction segments arbitrary: tok)
  case Nil
  then show ?case by (cases tok) auto
next
  case (Cons kv segments)
  then show ?case by (cases tok; cases kv) (auto simp: fold_subst_Lit)
qed

lemma substitute_realize:
  assumes "list_all (\<lambda>(k, v). brace_free k \<and> CHR ''{'' \<notin> set v) segments" "list_all token_ok t"
  shows "substitute segments (render t) = realize segments t"
proof -
  have "substitute segments (render t)
      = render (map (fold (\<lambda>(k, v). subst_token k v) segments) t)"
    using assms by (rule substitute_render)
  also have "\<dots> = realize segments t"
    by (simp add: render_def realize_def fold_subst_fill comp_def)
  finally show ?thesis .
qed

text \<open>
  \<open>go_range\<close> gives arrangements of the entries only, and gives every one of them.
\<close>

lemma go_range_mset: "mset (go_range n xs) = mset xs"
proof (induction xs arbitrary: n)
  case Nil
  then show ?case by simp
next
  case (Cons x xs)
  have "mset (insert_at i x ys) = add_mset x (mset ys)" for i and ys :: "'a list"
    using mset_append [of "take i ys" "drop i ys"] by (simp add: insert_at_def)
  with Cons show ?case by simp
qed

lemma go_range_set: "set (go_range n xs) = set xs"
  using go_range_mset [of n xs] by (rule mset_eq_setD)

lemma go_range_all_orders:
  assumes "mset ys = mset xs"
  shows "\<exists>n. go_range n xs = ys"
  using assms
proof (induction xs arbitrary: ys)
  case Nil
  then show ?case by simp
next
  case (Cons x xs)
  then have "x \<in> set ys"
    by (metis list.set_intros(1) mset_eq_setD)
  then obtain as bs where ys: "ys = as @ x # bs"
    by (auto dest: split_list)
  with Cons.prems have m: "mset (as @ bs) = mset xs" by simp
  then obtain m where IH: "go_range m xs = as @ bs"
    using Cons.IH by blast
  from m have len: "length as \<le> length xs"
    by (metis length_append le_add1 size_mset)
  let ?n = "length as + m * Suc (length xs)"
  from len have "?n mod Suc (length xs) = length as" "?n div Suc (length xs) = m"
    by (simp_all del: mult_Suc_right)
  then have "go_range ?n (x # xs) = ys"
    by (simp add: IH ys insert_at_def del: mult_Suc_right)
  then show ?case ..
qed

lemma go_range_map_of:
  assumes "distinct (map fst xs)"
  shows "map_of (go_range n xs) = map_of xs"
proof -
  have "mset (map fst (go_range n xs)) = mset (map fst xs)"
    by (simp add: go_range_mset)
  with assms have "distinct (map fst (go_range n xs))"
    by (metis mset_eq_imp_distinct_iff)
  with assms show ?thesis
    by (simp add: map_of_inject_set go_range_set)
qed

lemma realize_go_range:
  assumes "distinct (map fst segments)"
  shows "realize (go_range n segments) t = realize segments t"
proof -
  have "fill (go_range n segments) tok = fill segments tok" for tok
    by (cases tok) (simp_all add: go_range_map_of [OF assms])
  then have "fill (go_range n segments) = fill segments" by (rule ext)
  then show ?thesis by (simp add: realize_def)
qed

lemma substitute_any_order:
  assumes "list_all token_ok t" "segments_ok segments"
  shows "substitute (go_range n segments) (render t) = realize segments t"
proof -
  from assms(2) have d: "distinct (map fst segments)"
    and ok: "list_all (\<lambda>(k, v). brace_free k \<and> CHR ''{'' \<notin> set v) (go_range n segments)"
    by (simp_all add: segments_ok_def list_all_iff go_range_set)
  from ok assms(1) have "substitute (go_range n segments) (render t) = realize (go_range n segments) t"
    by (rule substitute_realize)
  with d show ?thesis by (simp add: realize_go_range)
qed

lemma digit_brace_free: "d < 10 \<Longrightarrow> digit d \<noteq> CHR ''{'' \<and> digit d \<noteq> CHR ''}''"
proof -
  have "list_all (\<lambda>d. digit d \<noteq> CHR ''{'' \<and> digit d \<noteq> CHR ''}'') [0..<10]"
    by code_simp
  then show "d < 10 \<Longrightarrow> digit d \<noteq> CHR ''{'' \<and> digit d \<noteq> CHR ''}''"
    by (simp add: list_all_iff)
qed

lemma formatBits_brace_free: "brace_free (formatBits n)"
proof (induction n rule: formatBits.induct)
  case (1 n)
  show ?case
  proof (cases "n < 10")
    case True
    then show ?thesis
      using digit_brace_free [of n] by (subst formatBits.simps) (auto simp: brace_free_def)
  next
    case False
    with 1 have "brace_free (formatBits (n div 10))" by simp
    moreover have "n mod 10 < 10" by simp
    ultimately show ?thesis
      using False digit_brace_free [of "n mod 10"]
      by (subst formatBits.simps) (auto simp: brace_free_def)
  qed
qed

lemma Itoa_brace_free: "brace_free (strconv_Itoa i)"
  using formatBits_brace_free [of "nat i"] formatBits_brace_free [of "nat (- i)"]
  by (simp add: strconv_Itoa_def brace_free_def)

lemma Itoa_415: "strconv_Itoa 415 = ''415''"
  by (simp add: strconv_Itoa_def formatBits.simps digit_def)

lemma CheckJobStatus_template:
  "Path (Endpoints CheckJobStatus) = render [Lit ''/'', Ph ''API_VERSION'', Lit ''/verify-batch/'', Ph ''JOB_ID'']"
  by (simp add: render_def)

lemma Replace_render_rest:
  assumes "list_all token_ok t" "brace_free k"
  shows "strings_Replace (render t @ rest) (CHR ''{'' # k @ ''}'') v
     = render (map (subst_token k v) t) @ strings_Replace rest (CHR ''{'' # k @ ''}'') v"
  using assms(1)
proof (induction t)
  case Nil
  then show ?case by (simp add: render_def)
next
  case (Cons tok t)
  then show ?case
    using Replace_token [of tok k "render t @ rest" v] assms(2) by (simp add: render_def)
qed

lemma Replace_absent:
  assumes "\<not> sublist old s" "old \<noteq> []"
  shows "strings_Replace s old new = s"
  using assms(1)
proof (induction s)
  case Nil
  then show ?case using assms(2) by (simp add: strings_Replace.simps)
next
  case (Cons c s)
  then have "\<not> prefix old (c # s)" "\<not> sublist old s"
    by (auto simp: sublist_Cons_right)
  with Cons.IH assms(2) show ?case
    by (subst strings_Replace.simps) simp
qed

lemma realized_single:
  "realized_path rt service [(k, v)] = strings_Replace (Path (Endpoints service)) (CHR ''{'' # k @ ''}'') v"
  by (simp add: realized_path_def substitute_def insert_at_def)

lemma single_entry_paths:
  "realized_path rt Verify [(''API_VERSION'', ''v2'')] = ''/v2/verify''"
  "realized_path rt VerifyMultiple [(''API_VERSION'', ''v2'')] = ''/v2/verify-batch''"
  "realized_path rt CreditBalance [(''API_VERSION'', ''v2'')] = ''/v2/balance''"
  by (simp_all add: realized_single strings_Replace.simps)

lemma CheckJobStatus_path:
  "substitute (go_range n [(''API_VERSION'', ''v2''), (''JOB_ID'', strconv_Itoa jobID)])
     (Path (Endpoints CheckJobStatus)) = ''/v2/verify-batch/'' @ strconv_Itoa jobID"
proof -
  let ?S = "[(''API_VERSION'', ''v2''), (''JOB_ID'', strconv_Itoa jobID)]"
  let ?T = "[Lit ''/'', Ph ''API_VERSION'', Lit ''/verify-batch/'', Ph ''JOB_ID'']"
  have seg: "segments_ok ?S"
    using Itoa_brace_free [of jobID] by (simp add: segments_ok_def brace_free_def)
  have tok: "list_all token_ok ?T"
    by (simp add: brace_free_def)
  have "substitute (go_range n ?S) (Path (Endpoints CheckJobStatus)) = realize ?S ?T"
    unfolding CheckJobStatus_template using tok seg by (rule substitute_any_order)
  also have "realize ?S ?T = ''/v2/verify-batch/'' @ strconv_Itoa jobID"
    by (simp add: realize_def)
  finally show ?thesis .
qed

lemma CheckJobStatus_realized:
  "realized_path rt CheckJobStatus [(''API_VERSION'', ''v2''), (''JOB_ID'', strconv_Itoa jobID)]
     = ''/v2/verify-batch/'' @ strconv_Itoa jobID"
  unfolding realized_path_def by (rule CheckJobStatus_path)

lemma Disposable_first_order:
  "substitute [(''API_VERSION'', ''v1''), (''EMAIL_ADDRESS'', email)]
     (Path (Endpoints DisposableEmailCheck)) = ''/v1/disposable/'' @ email"
proof -
  let ?T = "[Lit ''/'', Ph ''API_VERSION'', Lit ''/disposable/'', Ph ''EMAIL_ADDRESS'']"
  have tok: "list_all token_ok ?T"
    by (simp add: brace_free_def)
  have seg: "list_all (\<lambda>(k, v). brace_free k \<and> CHR ''{'' \<notin> set v) [(''API_VERSION'', ''v1'')]"
    by (simp add: brace_free_def)
  have T: "Path (Endpoints DisposableEmailCheck) = render ?T"
    by (simp add: render_def)
  have "substitute [(''API_VERSION'', ''v1'')] (render ?T)
      = render [Lit ''/'', Lit ''v1'', Lit ''/disposable/'', Ph ''EMAIL_ADDRESS'']"
    using substitute_render [OF seg tok] by simp
  moreover have "strings_Replace
        (render [Lit ''/'', Lit ''v1'', Lit ''/disposable/'', Ph ''EMAIL_ADDRESS''])
        (CHR ''{'' # ''EMAIL_ADDRESS'' @ ''}'') email
      = render (map (subst_token ''EMAIL_ADDRESS'' email)
          [Lit ''/'', Lit ''v1'', Lit ''/disposable/'', Ph ''EMAIL_ADDRESS''])"
    by (rule Replace_render) (simp_all add: brace_free_def)
  ultimately have "substitute [(''API_VERSION'', ''v1''), (''EMAIL_ADDRESS'', email)] (render ?T)
      = render (map (subst_token ''EMAIL_ADDRESS'' email)
          [Lit ''/'', Lit ''v1'', Lit ''/disposable/'', Ph ''EMAIL_ADDRESS''])"
    by (simp add: substitute_def)
  then show ?thesis
    unfolding T by (simp add: render_def)
qed

lemma Disposable_second_order:
  "substitute [(''EMAIL_ADDRESS'', email), (''API_VERSION'', ''v1'')]
     (Path (Endpoints DisposableEmailCheck))
     = ''/v1/disposable/'' @ strings_Replace email ''{API_VERSION}'' ''v1''"
proof -
  let ?T = "[Lit ''/'', Ph ''API_VERSION'', Lit ''/disposable/'', Ph ''EMAIL_ADDRESS'']"
  let ?U = "[Lit ''/'', Ph ''API_VERSION'', Lit ''/disposable/'']"
  have T: "Path (Endpoints DisposableEmailCheck) = render ?T"
    by (simp add: render_def)
  have "strings_Replace (render ?T) (CHR ''{'' # ''EMAIL_ADDRESS'' @ ''}'') email
      = render (map (subst_token ''EMAIL_ADDRESS'' email) ?T)"
    by (rule Replace_render) (simp_all add: brace_free_def)
  then have one: "strings_Replace (render ?T) (CHR ''{'' # ''EMAIL_ADDRESS'' @ ''}'') email
      = render ?U @ email"
    by (simp add: render_def)
  have two: "strings_Replace (render ?U @ email) (CHR ''{'' # ''API_VERSION'' @ ''}'') ''v1''
      = render (map (subst_token ''API_VERSION'' ''v1'') ?U)
          @ strings_Replace email (CHR ''{'' # ''API_VERSION'' @ ''}'') ''v1''"
    by (rule Replace_render_rest) (simp_all add: brace_free_def)
  have "substitute [(''EMAIL_ADDRESS'', email), (''API_VERSION'', ''v1'')] (render ?T)
      = strings_Replace (strings_Replace (render ?T) (CHR ''{'' # ''EMAIL_ADDRESS'' @ ''}'') email)
          (CHR ''{'' # ''API_VERSION'' @ ''}'') ''v1''"
    by (simp add: substitute_def)
  also have "\<dots> = render (map (subst_token ''API_VERSION'' ''v1'') ?U)
          @ strings_Replace email (CHR ''{'' # ''API_VERSION'' @ ''}'') ''v1''"
    by (simp only: one two)
  finally show ?thesis
    unfolding T by (simp add: render_def)
qed

lemma go_range_pair: "go_range n [a, b] = (if even n then [a, b] else [b, a])"
proof (cases "even n")
  case True
  then have "n mod Suc (Suc 0) = 0" by presburger
  then show ?thesis using True by (simp add: insert_at_def)
next
  case False
  then have "n mod Suc (Suc 0) = Suc 0" by presburger
  then show ?thesis using False by (simp add: insert_at_def)
qed

lemma Disposable_realized:
  "realized_path rt DisposableEmailCheck [(''API_VERSION'', ''v1''), (''EMAIL_ADDRESS'', email)]
     = (if even (range_seed rt) then ''/v1/disposable/'' @ email
        else ''/v1/disposable/'' @ strings_Replace email ''{API_VERSION}'' ''v1'')"
  unfolding realized_path_def go_range_pair
  by (simp only: Disposable_first_order Disposable_second_order if_distrib [of "\<lambda>s. substitute s _"])

text \<open>
  The operations hand exactly these realized paths to \<open>buildURL\<close>.
\<close>

lemma requests_realized:
  "Verify_request rt c email =
     (case buildURL rt c (realized_path rt Verify [(''API_VERSION'', ''v2'')])
             [(''email'', email), (''apikey'', apiKey c)] of
        Inl err \<Rightarrow> Inl err | Inr URL \<Rightarrow> http_NewRequest rt ''GET'' URL None)"
  "VerifyMultiple_request rt c urlCallback filename data =
     (case buildURL rt c (realized_path rt VerifyMultiple [(''API_VERSION'', ''v2'')])
             [(''apikey'', apiKey c)] of
        Inl err \<Rightarrow> Inl err
      | Inr URL \<Rightarrow>
          (case http_NewRequest rt ''PUT'' URL (Some data) of
             Inl err \<Rightarrow> Inl err
           | Inr request \<Rightarrow> Inr (add_headers (VerifyMultiple_headers urlCallback filename) request)))"
  "CheckJobStatus_request rt c jobID =
     (case buildURL rt c
             (realized_path rt CheckJobStatus [(''API_VERSION'', ''v2''), (''JOB_ID'', strconv_Itoa jobID)])
             [(''apikey'', apiKey c)] of
        Inl err \<Rightarrow> Inl err | Inr URL \<Rightarrow> http_NewRequest rt ''GET'' URL None)"
  "CreditBalance_request rt c =
     (case buildURL rt c (realized_path rt CreditBalance [(''API_VERSION'', ''v2'')])
             [(''apikey'', apiKey c)] of
        Inl err \<Rightarrow> Inl err | Inr URL \<Rightarrow> http_NewRequest rt ''GET'' URL None)"
  "Disposable_request rt c email =
     (case buildURL rt c
             (realized_path rt DisposableEmailCheck [(''API_VERSION'', ''v1''), (''EMAIL_ADDRESS'', email)])
             [(''apikey'', apiKey c)] of
        Inl err \<Rightarrow> Inl err | Inr URL \<Rightarrow> http_NewRequest rt ''GET'' URL None)"
  by (simp_all add: Verify_request_def VerifyMultiple_request_def CheckJobStatus_request_def
      CreditBalance_request_def Disposable_request_def buildRequest_def realized_path_def
      split: sum.splits del: go_range.simps)

text \<open>
  C7 as amended. Segment substitution takes the entries of the map one after the other, in
  the order of the iteration, and replaces every occurrence of \<open>{KEY}\<close> in the path so
  far by the entry's value. For a template of literal text without \<open>{\<close> and placeholders
  with brace-free keys, and a map with brace-free keys and values without \<open>{\<close>, the
  realized path is, in every order of iteration, the template with every placeholder that
  has an entry replaced by the entry's value and every other placeholder unchanged. For
  the five operations, in every order of iteration: Verify, VerifyMultiple and
  CreditBalance realize \<open>/v2/verify\<close>, \<open>/v2/verify-batch\<close> and \<open>/v2/balance\<close>;
  CheckJobStatus realizes \<open>/v2/verify-batch/\<close> followed by the decimal job identifier,
  which for 415 is \<open>/v2/verify-batch/415\<close>; Disposable realizes \<open>/v1/disposable/\<close>
  followed by the address when \<open>API_VERSION\<close> is visited first, and followed by the
  address with every \<open>{API_VERSION}\<close> in it replaced by \<open>v1\<close> when \<open>EMAIL_ADDRESS\<close>
  is visited first, hence by the address itself in every order when the address does not
  contain \<open>{API_VERSION}\<close>.
\<close>

theorem C7_segment_substitution:
  "(list_all token_ok t \<and> segments_ok segments \<longrightarrow>
      substitute (go_range n segments) (render t) = realize segments t) \<and>
   realized_path rt Verify [(''API_VERSION'', ''v2'')] = ''/v2/verify'' \<and>
   realized_path rt VerifyMultiple [(''API_VERSION'', ''v2'')] = ''/v2/verify-batch'' \<and>
   realized_path rt CreditBalance [(''API_VERSION'', ''v2'')] = ''/v2/balance'' \<and>
   realized_path rt CheckJobStatus [(''API_VERSION'', ''v2''), (''JOB_ID'', strconv_Itoa jobID)]
     = ''/v2/verify-batch/'' @ strconv_Itoa jobID \<and>
   strconv_Itoa 415 = ''415'' \<and>
   go_range (range_seed rt) [(''API_VERSION'', ''v1''), (''EMAIL_ADDRESS'', email)]
     = (if even (range_seed rt) then [(''API_VERSION'', ''v1''), (''EMAIL_ADDRESS'', email)]
        else [(''EMAIL_ADDRESS'', email), (''API_VERSION'', ''v1'')]) \<and>
   realized_path rt DisposableEmailCheck [(''API_VERSION'', ''v1''), (''EMAIL_ADDRESS'', email)]
     = (if even (range_seed rt) then ''/v1/disposable/'' @ email
        else ''/v1/disposable/'' @ strings_Replace email ''{API_VERSION}'' ''v1'') \<and>
   (\<not> sublist ''{API_VERSION}'' email \<longrightarrow>
      realized_path rt DisposableEmailCheck [(''API_VERSION'', ''v1''), (''EMAIL_ADDRESS'', email)]
        = ''/v1/disposable/'' @ email)"
proof (intro conjI impI)
  assume "list_all token_ok t \<and> segments_ok segments"
  then show "substitute (go_range n segments) (render t) = realize segments t"
    by (simp add: substitute_any_order)
next
  show "realized_path rt Verify [(''API_VERSION'', ''v2'')] = ''/v2/verify''"
    by (rule single_entry_paths)
  show "realized_path rt VerifyMultiple [(''API_VERSION'', ''v2'')] = ''/v2/verify-batch''"
    by (rule single_entry_paths)
  show "realized_path rt CreditBalance [(''API_VERSION'', ''v2'')] = ''/v2/balance''"
    by (rule single_entry_paths)
  show "realized_path rt CheckJobStatus [(''API_VERSION'', ''v2''), (''JOB_ID'', strconv_Itoa jobID)]
     = ''/v2/verify-batch/'' @ strconv_Itoa jobID"
    by (rule CheckJobStatus_realized)
  show "strconv_Itoa 415 = ''415''" by (rule Itoa_415)
  show "go_range (range_seed rt) [(''API_VERSION'', ''v1''), (''EMAIL_ADDRESS'', email)]
     = (if even (range_seed rt) then [(''API_VERSION'', ''v1''), (''EMAIL_ADDRESS'', email)]
        else [(''EMAIL_ADDRESS'', email), (''API_VERSION'', ''v1'')])"
    by (rule go_range_pair)
  show "realized_path rt DisposableEmailCheck [(''API_VERSION'', ''v1''), (''EMAIL_ADDRESS'', email)]
     = (if even (range_seed rt) then ''/v1/disposable/'' @ email
        else ''/v1/disposable/'' @ strings_Replace email ''{API_VERSION}'' ''v1'')"
    by (rule Disposable_realized)
next
  assume "\<not> sublist ''{API_VERSION}'' email"
  then have "strings_Replace email ''{API_VERSION}'' ''v1'' = email"
    by (rule Replace_absent) simp
  then show "realized_path rt DisposableEmailCheck
      [(''API_VERSION'', ''v1''), (''EMAIL_ADDRESS'', email)] = ''/v1/disposable/'' @ email"
    by (simp only: Disposable_realized if_cancel)
qed

theorem C7_segment_substitution_witness:
  "substitute (go_range 1 [(''API_VERSION'', ''v1''), (''EMAIL_ADDRESS'', ''email@address.com'')])
     (render [Lit ''/'', Ph ''API_VERSION'', Lit ''/disposable/'', Ph ''EMAIL_ADDRESS'', Ph ''OTHER''])
     = ''/v1/disposable/email@address.com{OTHER}'' \<and>
   realized_path (test_runtime 1) CheckJobStatus [(''API_VERSION'', ''v2''), (''JOB_ID'', ''415'')]
     = ''/v2/verify-batch/415'' \<and>
   realized_path (test_runtime 1) DisposableEmailCheck
       [(''API_VERSION'', ''v1''), (''EMAIL_ADDRESS'', ''a{b}@c.d'')]
     = ''/v1/disposable/a{b}@c.d''"
proof -
  have tok: "list_all token_ok
      [Lit ''/'', Ph ''API_VERSION'', Lit ''/disposable/'', Ph ''EMAIL_ADDRESS'', Ph ''OTHER'']"
    by (simp add: brace_free_def)
  have seg: "segments_ok [(''API_VERSION'', ''v1''), (''EMAIL_ADDRESS'', ''email@address.com'')]"
    by (simp add: segments_ok_def brace_free_def)
  have e: "\<not> sublist ''{API_VERSION}'' ''a{b}@c.d''"
    by (simp add: sublist_Cons_right)
  note C7 = C7_segment_substitution [where t = "[Lit ''/'', Ph ''API_VERSION'', Lit ''/disposable/'',
        Ph ''EMAIL_ADDRESS'', Ph ''OTHER'']"
      and segments = "[(''API_VERSION'', ''v1''), (''EMAIL_ADDRESS'', ''email@address.com'')]"
      and n = 1 and rt = "test_runtime 1" and jobID = 415 and email = "''a{b}@c.d''"]
  from C7 tok seg
  have "substitute (go_range 1 [(''API_VERSION'', ''v1''), (''EMAIL_ADDRESS'', ''email@address.com'')])
       (render [Lit ''/'', Ph ''API_VERSION'', Lit ''/disposable/'', Ph ''EMAIL_ADDRESS'', Ph ''OTHER''])
       = realize [(''API_VERSION'', ''v1''), (''EMAIL_ADDRESS'', ''email@address.com'')]
           [Lit ''/'', Ph ''API_VERSION'', Lit ''/disposable/'', Ph ''EMAIL_ADDRESS'', Ph ''OTHER'']"
    by blast
  moreover have "realize [(''API_VERSION'', ''v1''), (''EMAIL_ADDRESS'', ''email@address.com'')]
           [Lit ''/'', Ph ''API_VERSION'', Lit ''/disposable/'', Ph ''EMAIL_ADDRESS'', Ph ''OTHER'']
       = ''/v1/disposable/email@address.com{OTHER}''"
    by (simp add: realize_def)
  ultimately
  have a: "substitute (go_range 1 [(''API_VERSION'', ''v1''), (''EMAIL_ADDRESS'', ''email@address.com'')])
       (render [Lit ''/'', Ph ''API_VERSION'', Lit ''/disposable/'', Ph ''EMAIL_ADDRESS'', Ph ''OTHER''])
       = ''/v1/disposable/email@address.com{OTHER}''"
    by (simp only:)
  from C7 have "realized_path (test_runtime 1) CheckJobStatus
      [(''API_VERSION'', ''v2''), (''JOB_ID'', strconv_Itoa 415)]
        = ''/v2/verify-batch/'' @ strconv_Itoa 415"
    by blast
  then have b: "realized_path (test_runtime 1) CheckJobStatus
      [(''API_VERSION'', ''v2''), (''JOB_ID'', ''415'')] = ''/v2/verify-batch/415''"
    by (simp only: Itoa_415 append.simps)
  from C7 e have d: "realized_path (test_runtime 1) DisposableEmailCheck
       [(''API_VERSION'', ''v1''), (''EMAIL_ADDRESS'', ''a{b}@c.d'')] = ''/v1/disposable/'' @ ''a{b}@c.d''"
    by blast
  then have d': "realized_path (test_runtime 1) DisposableEmailCheck
       [(''API_VERSION'', ''v1''), (''EMAIL_ADDRESS'', ''a{b}@c.d'')] = ''/v1/disposable/a{b}@c.d''"
    by (simp only: append.simps)
  from a b d' show ?thesis by (intro conjI)
qed

text \<open>
  C7 as stated fails when a value holds a placeholder of the map: for
  \<open>Disposable("{API_VERSION}")\<close> with the iteration visiting \<open>EMAIL_ADDRESS\<close> first, the
  placeholder \<open>{EMAIL_ADDRESS}\<close> of the template is not replaced by the entry's value
  \<open>{API_VERSION}\<close> in the realized path, which is \<open>/v1/disposable/v1\<close> and not
  \<open>/v1/disposable/{API_VERSION}\<close>.
\<close>

theorem C7_counterexample:
  "Path (Endpoints DisposableEmailCheck)
     = render [Lit ''/'', Ph ''API_VERSION'', Lit ''/disposable/'', Ph ''EMAIL_ADDRESS''] \<and>
   realize [(''API_VERSION'', ''v1''), (''EMAIL_ADDRESS'', ''{API_VERSION}'')]
       [Lit ''/'', Ph ''API_VERSION'', Lit ''/disposable/'', Ph ''EMAIL_ADDRESS'']
     = ''/v1/disposable/{API_VERSION}'' \<and>
   go_range 1 [(''API_VERSION'', ''v1''), (''EMAIL_ADDRESS'', ''{API_VERSION}'')]
     = [(''EMAIL_ADDRESS'', ''{API_VERSION}''), (''API_VERSION'', ''v1'')] \<and>
   realized_path (test_runtime 1) DisposableEmailCheck
       [(''API_VERSION'', ''v1''), (''EMAIL_ADDRESS'', ''{API_VERSION}'')]
     = ''/v1/disposable/v1''"
  by (simp add: render_def realize_def realized_path_def substitute_def strings_Replace.simps
      insert_at_def test_runtime_def)

subsection \<open>The query string of each operation\<close>

lemma escape_byte_literal:
  "CHR ''%'' \<notin> set (escape_byte c) \<Longrightarrow> CHR ''+'' \<notin> set (escape_byte c) \<Longrightarrow> escape_byte c = [c]"
  by (auto simp: escape_byte_def split: if_splits)

lemma QueryEscape_literal:
  "CHR ''%'' \<notin> set (url_QueryEscape s) \<Longrightarrow> CHR ''+'' \<notin> set (url_QueryEscape s)
     \<Longrightarrow> url_QueryEscape s = s"
proof (induction s)
  case Nil
  then show ?case by (simp add: url_QueryEscape_def)
next
  case (Cons c s)
  have split: "url_QueryEscape (c # s) = escape_byte c @ url_QueryEscape s"
    by (simp add: url_QueryEscape_def)
  with Cons.prems have c: "CHR ''%'' \<notin> set (escape_byte c)" "CHR ''+'' \<notin> set (escape_byte c)"
    and s: "CHR ''%'' \<notin> set (url_QueryEscape s)" "CHR ''+'' \<notin> set (url_QueryEscape s)"
    by simp_all
  from c have "escape_byte c = [c]" by (rule escape_byte_literal)
  moreover from s have "url_QueryEscape s = s" by (rule Cons.IH)
  ultimately show ?case using split by simp
qed

lemma QueryEscape_no_eq: "CHR ''='' \<notin> set (url_QueryEscape s)"
  using plain_QueryEscape plain_not_sep by blast

lemma apikey_piece_key:
  assumes "prefix ''apikey='' (url_QueryEscape k @ ''='' @ x)"
  shows "k = ''apikey''"
proof -
  have "''apikey'' = url_QueryEscape k"
    using assms QueryEscape_no_eq [of k]
      prefix_sep_unique [of "CHR ''=''" "''apikey''" "url_QueryEscape k" x]
    by simp
  moreover from this [symmetric] have "url_QueryEscape k = k"
    by (intro QueryEscape_literal) simp_all
  ultimately show ?thesis by simp
qed

lemma filter_concat_single:
  assumes "distinct ks" "k0 \<in> set ks" "\<forall>p \<in> set (g k0). P p"
    and "\<forall>k \<in> set ks. k \<noteq> k0 \<longrightarrow> (\<forall>p \<in> set (g k). \<not> P p)"
  shows "filter P (concat (map g ks)) = g k0"
  using assms
proof (induction ks)
  case Nil
  then show ?case by simp
next
  case (Cons k ks)
  show ?case
  proof (cases "k = k0")
    case True
    with Cons.prems have "\<forall>k' \<in> set ks. \<forall>p \<in> set (g k'). \<not> P p" by auto
    then have "filter P (concat (map g ks)) = []"
      by (auto simp: filter_empty_conv)
    with True Cons.prems(3) show ?thesis by simp
  next
    case False
    with Cons.prems have "filter P (g k) = []" "filter P (concat (map g ks)) = g k0"
      by (auto simp: filter_empty_conv intro!: Cons.IH)
    then show ?thesis by simp
  qed
qed

lemma Values_apikey_pieces:
  assumes "map_of q ''apikey'' = Some [v]"
  shows "filter (prefix ''apikey='') (Values_pairs q) = [''apikey='' @ url_QueryEscape v]"
proof -
  let ?g = "\<lambda>k. map (\<lambda>x. url_QueryEscape k @ ''='' @ url_QueryEscape x) (Values_Get q k)"
  have "distinct (Values_keys q)"
    by (simp add: Values_keys_def)
  moreover have "''apikey'' \<in> set (Values_keys q)"
    using assms by (auto simp: Values_keys_def dest: map_of_SomeD intro: rev_image_eqI)
  moreover have "\<forall>p \<in> set (?g ''apikey''). prefix ''apikey='' p"
    using assms by (simp add: Values_Get_def literal_keys)
  moreover have "\<forall>k \<in> set (Values_keys q). k \<noteq> ''apikey'' \<longrightarrow>
      (\<forall>p \<in> set (?g k). \<not> prefix ''apikey='' p)"
    using apikey_piece_key by auto
  ultimately have "filter (prefix ''apikey='') (concat (map ?g (Values_keys q))) = ?g ''apikey''"
    by (rule filter_concat_single [where g = ?g and P = "prefix ''apikey=''"
          and ks = "Values_keys q" and ?k0.0 = "''apikey''"])
  with assms show ?thesis
    by (simp add: Values_pairs_def Values_Get_def literal_keys)
qed

lemma map_of_Values_Set: "map_of (Values_Set q k v) = (map_of q)(k \<mapsto> [v])"
  by (simp add: Values_Set_def update_conv')

lemma fold_Set_other:
  "k \<notin> fst ` set ps \<Longrightarrow> map_of (fold (\<lambda>(k, v) q. Values_Set q k v) ps q0) k = map_of q0 k"
proof (induction ps arbitrary: q0)
  case Nil
  then show ?case by simp
next
  case (Cons p ps)
  then show ?case by (cases p) (auto simp: map_of_Values_Set)
qed

lemma fold_Set_member:
  "distinct (map fst ps) \<Longrightarrow> (k, v) \<in> set ps
     \<Longrightarrow> map_of (fold (\<lambda>(k, v) q. Values_Set q k v) ps q0) k = Some [v]"
proof (induction ps arbitrary: q0)
  case Nil
  then show ?case by simp
next
  case (Cons p ps)
  show ?case
  proof (cases "p = (k, v)")
    case True
    with Cons.prems have "k \<notin> fst ` set ps" by auto
    then show ?thesis
      using True by (simp add: fold_Set_other map_of_Values_Set)
  next
    case False
    with Cons.prems have "distinct (map fst ps)" "(k, v) \<in> set ps" by auto
    then show ?thesis by (simp add: Cons.IH)
  qed
qed

lemma query_values_apikey:
  assumes b: "buildRequest rt c method path segments params body = Inr request"
    and d: "distinct (map fst params)"
  shows "query_values request ''apikey'' = [url_QueryEscape (apiKey c)]"
proof -
  from b obtain u where u: "url_Parse rt (baseURL c) = Inr u"
    by (rule buildRequest_Inr)
  let ?ps = "AList.update ''apikey'' (apiKey c) params"
  let ?q = "fold (\<lambda>(k, v) q. Values_Set q k v) ?ps (url_ParseQuery rt (u_RawQuery u))"
  have "distinct (map fst ?ps)"
    using d by (simp add: distinct_update)
  moreover have "map_of ?ps ''apikey'' = Some (apiKey c)"
    by (simp add: update_conv')
  then have "(''apikey'', apiKey c) \<in> set ?ps"
    by (rule map_of_SomeD)
  ultimately have "map_of ?q ''apikey'' = Some [apiKey c]"
    by (rule fold_Set_member)
  then have f: "filter (prefix ''apikey='') (Values_pairs ?q) = [''apikey='' @ url_QueryEscape (apiKey c)]"
    by (rule Values_apikey_pieces)
  then have ne: "Values_pairs ?q \<noteq> []" by auto
  from b u have raw: "u_RawQuery (r_URL request) = Values_Encode ?q"
    by (auto elim!: buildRequest_Inr)
  have "query_pieces request = Values_pairs ?q"
    by (simp only: query_pieces_def raw Split_Encode [OF ne])
  then show ?thesis
    by (simp add: query_values_def literal_keys f)
qed

lemma query_values_add_headers:
  "query_values (add_headers headers request) k = query_values request k"
  by (simp add: query_values_def query_pieces_def URL_add_headers)

text \<open>
  C8. For every operation and all arguments, the query string of the built request has the
  piece \<open>apikey=\<close> followed by the escaped API key of the client, and that is its only
  \<open>apikey\<close> piece; the request of Verify also has the piece \<open>email=\<close> followed by
  the escaped address. Every byte of the query string is a letter, a digit, one of
  \<open>- _ . ~\<close>, or one of the \<open>% + = &\<close> of the encoding: keys and values are
  percent-encoded by \<open>url.QueryEscape\<close>.
\<close>

theorem C8_apikey_in_query:
  "(Verify_request rt c email = Inr request \<longrightarrow>
      query_has request ''apikey'' (apiKey c) \<and>
      query_values request ''apikey'' = [url_QueryEscape (apiKey c)] \<and>
      query_has request ''email'' email \<and> query_encoded request) \<and>
   (VerifyMultiple_request rt c urlCallback filename data = Inr request \<longrightarrow>
      query_has request ''apikey'' (apiKey c) \<and>
      query_values request ''apikey'' = [url_QueryEscape (apiKey c)] \<and> query_encoded request) \<and>
   (CheckJobStatus_request rt c jobID = Inr request \<longrightarrow>
      query_has request ''apikey'' (apiKey c) \<and>
      query_values request ''apikey'' = [url_QueryEscape (apiKey c)] \<and> query_encoded request) \<and>
   (CreditBalance_request rt c = Inr request \<longrightarrow>
      query_has request ''apikey'' (apiKey c) \<and>
      query_values request ''apikey'' = [url_QueryEscape (apiKey c)] \<and> query_encoded request) \<and>
   (Disposable_request rt c email = Inr request \<longrightarrow>
      query_has request ''apikey'' (apiKey c) \<and>
      query_values request ''apikey'' = [url_QueryEscape (apiKey c)] \<and> query_encoded request)"
proof (intro conjI impI)
  assume b: "Verify_request rt c email = Inr request"
  then obtain u where u: "url_Parse rt (baseURL c) = Inr u"
    unfolding Verify_request_def by (rule buildRequest_Inr)
  show "query_has request ''apikey'' (apiKey c)"
    by (rule query_has_built [OF b [unfolded Verify_request_def] u])
      (simp add: Values_Set_def update_conv')
  show "query_has request ''email'' email"
    by (rule query_has_built [OF b [unfolded Verify_request_def] u])
      (simp add: Values_Set_def update_conv')
  show "query_values request ''apikey'' = [url_QueryEscape (apiKey c)]"
    by (rule query_values_apikey [OF b [unfolded Verify_request_def]]) simp
  show "query_encoded request"
    using b unfolding Verify_request_def by (rule query_encoded_built)
next
  assume "VerifyMultiple_request rt c urlCallback filename data = Inr request"
  then obtain request0 where
    b: "buildRequest rt c (Method (Endpoints VerifyMultiple)) (Path (Endpoints VerifyMultiple))
          [(''API_VERSION'', ''v2'')] [] (Some data) = Inr request0"
    and r: "request = add_headers (VerifyMultiple_headers urlCallback filename) request0"
    by (auto simp: VerifyMultiple_request_def split: sum.splits)
  show "query_has request ''apikey'' (apiKey c)"
    unfolding r query_add_headers using b by (rule query_has_apikey)
  show "query_values request ''apikey'' = [url_QueryEscape (apiKey c)]"
    unfolding r query_values_add_headers by (rule query_values_apikey [OF b]) simp
  show "query_encoded request"
    unfolding r query_add_headers using b by (rule query_encoded_built)
next
  assume b: "CheckJobStatus_request rt c jobID = Inr request"
  show "query_has request ''apikey'' (apiKey c)"
    using b unfolding CheckJobStatus_request_def by (rule query_has_apikey)
  show "query_values request ''apikey'' = [url_QueryEscape (apiKey c)]"
    by (rule query_values_apikey [OF b [unfolded CheckJobStatus_request_def]]) simp
  show "query_encoded request"
    using b unfolding CheckJobStatus_request_def by (rule query_encoded_built)
next
  assume b: "CreditBalance_request rt c = Inr request"
  show "query_has request ''apikey'' (apiKey c)"
    using b unfolding CreditBalance_request_def by (rule query_has_apikey)
  show "query_values request ''apikey'' = [url_QueryEscape (apiKey c)]"
    by (rule query_values_apikey [OF b [unfolded CreditBalance_request_def]]) simp
  show "query_encoded request"
    using b unfolding CreditBalance_request_def by (rule query_encoded_built)
next
  assume b: "Disposable_request rt c email = Inr request"
  show "query_has request ''apikey'' (apiKey c)"
    using b unfolding Disposable_request_def by (rule query_has_apikey)
  show "query_values request ''apikey'' = [url_QueryEscape (apiKey c)]"
    by (rule query_values_apikey [OF b [unfolded Disposable_request_def]]) simp
  show "query_encoded request"
    using b unfolding Disposable_request_def by (rule query_encoded_built)
qed

lemma test_Verify_query:
  "(case Verify_request (test_runtime 0) (test_client (Inl (http_Error ''unused''))) ''a b@c.d'' of
      Inl err \<Rightarrow> False
    | Inr request \<Rightarrow> u_RawQuery (r_URL request) = ''apikey=a_valid_api_key&email=a+b%40c.d'')"
  by (simp add: Verify_request_def buildRequest_def buildURL_def test_runtime_def test_client_def
      http_NewRequest_def URL_String_def test_URL_def Values_Set_def) code_simp

theorem C8_apikey_in_query_witness:
  "(case Verify_request (test_runtime 0) (test_client (Inl (http_Error ''unused''))) ''a b@c.d'' of
      Inl err \<Rightarrow> False
    | Inr request \<Rightarrow>
        query_has request ''apikey'' ''a_valid_api_key'' \<and>
        query_values request ''apikey'' = [''a_valid_api_key''] \<and>
        query_has request ''email'' ''a b@c.d'' \<and>
        query_encoded request \<and>
        u_RawQuery (r_URL request) = ''apikey=a_valid_api_key&email=a+b%40c.d'')"
proof -
  obtain request where r: "Verify_request (test_runtime 0)
      (test_client (Inl (http_Error ''unused''))) ''a b@c.d'' = Inr request"
    using test_requests(1) by blast
  have k: "url_QueryEscape ''a_valid_api_key'' = ''a_valid_api_key''"
    by code_simp
  from C8_apikey_in_query [where rt = "test_runtime 0"
      and c = "test_client (Inl (http_Error ''unused''))" and email = "''a b@c.d''"
      and request = request] r test_Verify_query
  show ?thesis
    by (simp add: test_client_def k)
qed

subsection \<open>Iteration order of parameters and headers\<close>

text \<open>
  The model walks the parameters and the headers in the order of its lists. Any other
  order of iteration builds the same URL and the same headers.
\<close>

lemma fold_Set_map_of:
  assumes "distinct (map fst ps)"
  shows "map_of (fold (\<lambda>(k, v) q. Values_Set q k v) ps q0) k
     = (case map_of ps k of Some v \<Rightarrow> Some [v] | None \<Rightarrow> map_of q0 k)"
proof (cases "map_of ps k")
  case None
  then have "k \<notin> fst ` set ps"
    by (simp add: map_of_eq_None_iff)
  with None show ?thesis by (simp add: fold_Set_other)
next
  case (Some v)
  then have "(k, v) \<in> set ps" by (rule map_of_SomeD)
  with assms Some show ?thesis by (simp add: fold_Set_member)
qed

lemma Values_Encode_cong:
  assumes "map_of q = map_of q'"
  shows "Values_Encode q = Values_Encode q'"
proof -
  from assms have "fst ` set q = fst ` set q'"
    by (metis dom_map_of_conv_image_fst)
  then have "set (map fst q) = set (map fst q')" by simp
  then have "sort (remdups (map fst q)) = sort (remdups (map fst q'))"
    by (metis sorted_list_of_set_sort_remdups)
  with assms show ?thesis
    by (simp add: Values_Encode_def Values_pairs_def Values_keys_def Values_Get_def)
qed

lemma buildURL_any_order:
  assumes "distinct (map fst params)"
  shows "buildURL rt c path (go_range n params) = buildURL rt c path params"
proof -
  have d: "distinct (map fst (go_range n params))"
    using assms go_range_mset [of n params]
    by (metis mset_eq_imp_distinct_iff mset_map)
  have "map_of (fold (\<lambda>(k, v) q. Values_Set q k v) (go_range n params) q0)
      = map_of (fold (\<lambda>(k, v) q. Values_Set q k v) params q0)" for q0
    by (rule ext) (simp add: fold_Set_map_of d assms go_range_map_of)
  then have "Values_Encode (fold (\<lambda>(k, v) q. Values_Set q k v) (go_range n params) q0)
      = Values_Encode (fold (\<lambda>(k, v) q. Values_Set q k v) params q0)" for q0
    by (rule Values_Encode_cong)
  then show ?thesis
    by (simp add: buildURL_def Let_def split: sum.splits)
qed

lemma add_headers_any_order:
  "add_headers (go_range n (VerifyMultiple_headers urlCallback filename)) request
     = add_headers (VerifyMultiple_headers urlCallback filename) request"
proof (cases "urlCallback \<noteq> [] \<and> filename \<noteq> []")
  case True
  have "CanonicalMIMEHeaderKey ''X-Kickbox-Callback'' \<noteq> CanonicalMIMEHeaderKey ''X-Kickbox-Filename''"
    by (simp add: canonical_keys)
  then have "Header_Add (Header_Add h ''X-Kickbox-Filename'' filename) ''X-Kickbox-Callback'' urlCallback
      = Header_Add (Header_Add h ''X-Kickbox-Callback'' urlCallback) ''X-Kickbox-Filename'' filename" for h
    by (simp add: Header_Add_commute)
  with True show ?thesis
    by (simp add: VerifyMultiple_headers_def add_headers_def go_range_pair del: go_range.simps)
next
  case False
  then show ?thesis
    by (auto simp: VerifyMultiple_headers_def add_headers_def insert_at_def)
qed

end
